theory Spec2Isabelle
  imports Complex_Main "HOL-Library.Char_ord" "HOL-Library.List_Lexorder"
begin

section \<open>Values read from the logs\<close>

text \<open>
  The analyzers read JSON. A value whose shape the programs do not fix (the content of
  a message) is kept as a JSON value; numbers are the integers of the log format.
  An entry, its message and its usage block are JSON objects, and the fields the programs
  rely on have the types the log format gives them: a session id, an entry type, a
  timestamp and a model name are strings, a usage block holds integer counts. A field is
  optional everywhere: \<open>None\<close> is a missing key.
\<close>

datatype json =
    JNull
  | JBool bool
  | JInt int
  | JStr string
  | JList "json list"
  | JObj "(string \<times> json) list"

text \<open>Python's truth value of a JSON value (\<^verbatim>\<open>if x:\<close>, \<^verbatim>\<open>not x\<close>).\<close>

fun truthy :: "json \<Rightarrow> bool" where
  "truthy JNull = False"
| "truthy (JBool b) = b"
| "truthy (JInt i) = (i \<noteq> 0)"
| "truthy (JStr s) = (s \<noteq> [])"
| "truthy (JList xs) = (xs \<noteq> [])"
| "truthy (JObj kvs) = (kvs \<noteq> [])"

text \<open>\<^verbatim>\<open>d.get(k)\<close> on the items of a dict.\<close>

definition get :: "(string \<times> json) list \<Rightarrow> string \<Rightarrow> json option" where
  "get kvs k = map_of kvs k"

text \<open>\<^verbatim>\<open>s.replace(c, new)\<close> for a one-character \<open>c\<close>: every occurrence is replaced.\<close>

definition replace :: "char \<Rightarrow> string \<Rightarrow> string \<Rightarrow> string" where
  "replace c new s = concat (map (\<lambda>x. if x = c then new else [x]) s)"

text \<open>\<^verbatim>\<open>sep.join(xs)\<close> on strings.\<close>

fun join :: "string \<Rightarrow> string list \<Rightarrow> string" where
  "join sep [] = []"
| "join sep [x] = x"
| "join sep (x # y # ys) = x @ sep @ join sep (y # ys)"

section \<open>Dates and times\<close>

text \<open>
  A \<^verbatim>\<open>datetime\<close>: its calendar fields and, when it is aware, its offset from UTC in
  microseconds. A \<^verbatim>\<open>timedelta\<close> is a number of microseconds; Python keeps it as days,
  seconds in \<open>[0, 86400)\<close> and microseconds in \<open>[0, 10\<^sup>6)\<close>, and the attribute
  \<^verbatim>\<open>.seconds\<close> is the middle component only.
\<close>

record datetime =
  year :: int
  month :: int
  day :: int
  hour :: int
  minute :: int
  second :: int
  microsecond :: int
  utcoffset :: "int option"

definition is_leap :: "int \<Rightarrow> bool" where
  "is_leap y = (y mod 4 = 0 \<and> (y mod 100 \<noteq> 0 \<or> y mod 400 = 0))"

definition days_before_year :: "int \<Rightarrow> int" where
  "days_before_year y = (y - 1) * 365 + (y - 1) div 4 - (y - 1) div 100 + (y - 1) div 400"

definition days_in_month :: "int \<Rightarrow> int \<Rightarrow> int" where
  "days_in_month y m =
     (if m = 2 then (if is_leap y then 29 else 28)
      else if m = 4 \<or> m = 6 \<or> m = 9 \<or> m = 11 then 30 else 31)"

definition days_before_month :: "int \<Rightarrow> int \<Rightarrow> int" where
  "days_before_month y m = (\<Sum>k \<leftarrow> [1..<nat m]. days_in_month y (int k))"

definition ymd2ord :: "int \<Rightarrow> int \<Rightarrow> int \<Rightarrow> int" where
  "ymd2ord y m d = days_before_year y + days_before_month y m + d"

text \<open>The microseconds from 0001-01-01T00:00:00 to the wall-clock reading of a datetime.\<close>

definition wall_us :: "datetime \<Rightarrow> int" where
  "wall_us t =
     ((((ymd2ord (year t) (month t) (day t) - 1) * 24 + hour t) * 60 + minute t) * 60
        + second t) * 1000000 + microsecond t"

text \<open>
  \<^verbatim>\<open>datetime.now(timezone.utc) - last_time\<close>: the clock's reading is an aware datetime,
  given here as its microseconds from 0001-01-01T00:00:00 UTC. Subtracting a naive
  datetime from it raises TypeError (\<open>None\<close>).
\<close>

definition sub_now :: "int \<Rightarrow> datetime \<Rightarrow> int option" where
  "sub_now now t =
     (case utcoffset t of
        None \<Rightarrow> None
      | Some off \<Rightarrow> Some (now - (wall_us t - off)))"

definition seconds :: "int \<Rightarrow> int" where
  "seconds td = (td div 1000000) mod 86400"

definition total_seconds_floor :: "int \<Rightarrow> int" where
  "total_seconds_floor td = td div 1000000"

text \<open>The date of a datetime, as \<^verbatim>\<open>strftime('%Y-%m-%d')\<close> names it: the calendar fields.\<close>

definition date :: "datetime \<Rightarrow> int \<times> int \<times> int" where
  "date t = (year t, month t, day t)"

subsection \<open>The library functions the programs call\<close>

text \<open>
  The programs call three things that are not theirs: \<^verbatim>\<open>datetime.fromisoformat\<close>
  (\<open>None\<close> where it raises ValueError), \<^verbatim>\<open>str\<close> on a value that is not a string, and
  the clock. They are parameters of the model. The clock is read once per classified
  conversation: \<open>now E n\<close> is its reading when \<open>n\<close> conversations exist already.
\<close>

record env =
  fromisoformat :: "string \<Rightarrow> datetime option"
  py_str :: "json \<Rightarrow> string"
  now :: "nat \<Rightarrow> int"

text \<open>\<^verbatim>\<open>str(x)\<close>: a string is itself.\<close>

definition str :: "env \<Rightarrow> json \<Rightarrow> string" where
  "str E v = (case v of JStr s \<Rightarrow> s | _ \<Rightarrow> py_str E v)"

section \<open>Raw entries, messages and conversations\<close>

text \<open>
  One line of a log, parsed: the keys \<^verbatim>\<open>sessionId\<close>, \<^verbatim>\<open>type\<close>, \<^verbatim>\<open>timestamp\<close> and
  \<^verbatim>\<open>message\<close> of the entry, and \<^verbatim>\<open>content\<close>, \<^verbatim>\<open>model\<close> and \<^verbatim>\<open>usage\<close> of its message.
  A usage block is a dict: it is empty (and false for Python) when it has no key at all,
  so the keys the programs do not read are kept.
\<close>

record usage =
  input_tokens :: "int option"
  output_tokens :: "int option"
  other_fields :: "(string \<times> json) list"

record raw_message =
  m_content :: "json option"
  m_model :: "string option"
  m_usage :: "usage option"

record entry =
  e_sessionId :: "string option"
  e_type :: "string option"
  e_timestamp :: "string option"
  e_message :: "raw_message option"

text \<open>The dicts \<^verbatim>\<open>message_info\<close> and \<^verbatim>\<open>conversation\<close> of the dashboard analyzer.\<close>

record message_info =
  role :: string
  content :: json
  timestamp :: "string option"
  tokens :: int

record conversation =
  conv_id :: string
  file_path :: string
  messages :: "message_info list"
  total_tokens :: int
  model :: string
  created_at :: "string option"
  last_activity :: "string option"
  status :: string
  project_context :: string

datatype py_error = TypeError | AttributeError

text \<open>\<^verbatim>\<open>entry.get('message', {})\<close>: a missing message is the empty dict.\<close>

definition empty_message :: raw_message where
  "empty_message = \<lparr>m_content = None, m_model = None, m_usage = None\<rparr>"

definition message_of :: "entry \<Rightarrow> raw_message" where
  "message_of e = (case e_message e of None \<Rightarrow> empty_message | Some m \<Rightarrow> m)"

text \<open>\<^verbatim>\<open>if usage:\<close> on \<^verbatim>\<open>message_data.get('usage', {})\<close>.\<close>

definition usage_truthy :: "usage option \<Rightarrow> bool" where
  "usage_truthy u =
     (case u of
        None \<Rightarrow> False
      | Some x \<Rightarrow> input_tokens x \<noteq> None \<or> output_tokens x \<noteq> None \<or> other_fields x \<noteq> [])"

text \<open>\<^verbatim>\<open>usage.get(k, 0)\<close>.\<close>

definition or_zero :: "int option \<Rightarrow> int" where
  "or_zero v = (case v of None \<Rightarrow> 0 | Some n \<Rightarrow> n)"

text \<open>A string field that Python takes for true: present and not empty.\<close>

definition nonempty :: "string option \<Rightarrow> bool" where
  "nonempty v = (case v of None \<Rightarrow> False | Some s \<Rightarrow> s \<noteq> [])"

subsection \<open>\<^verbatim>\<open>estimate_tokens\<close>\<close>

definition estimate_tokens :: "env \<Rightarrow> json \<Rightarrow> int" where
  "estimate_tokens E text =
     (if \<not> truthy text then 0 else int (length (str E text)) div 4)"

subsection \<open>\<^verbatim>\<open>determine_conversation_status\<close>\<close>

text \<open>
  The second argument is the clock's reading. The bare \<^verbatim>\<open>except\<close> turns the ValueError
  of the parser and the TypeError of the subtraction into \<^verbatim>\<open>'unknown'\<close>.
\<close>

definition determine_conversation_status :: "env \<Rightarrow> int \<Rightarrow> conversation \<Rightarrow> string" where
  "determine_conversation_status E clock conversation =
     (if \<not> nonempty (last_activity conversation) then ''unknown''
      else
        case fromisoformat E (replace CHR ''Z'' ''+00:00'' (the (last_activity conversation))) of
          None \<Rightarrow> ''unknown''
        | Some last_time \<Rightarrow>
            (case sub_now clock last_time of
               None \<Rightarrow> ''unknown''
             | Some time_diff \<Rightarrow>
                 if seconds time_diff < 300 then ''active''
                 else if seconds time_diff < 3600 then ''recent''
                 else ''inactive''))"

subsection \<open>\<^verbatim>\<open>extract_project_context\<close>\<close>

text \<open>\<^verbatim>\<open>s.lower()\<close> on ASCII, and \<^verbatim>\<open>term in s\<close>.\<close>

definition lower_char :: "char \<Rightarrow> char" where
  "lower_char c =
     (if CHR ''A'' \<le> c \<and> c \<le> CHR ''Z'' then char_of (of_char c + (32 :: nat)) else c)"

definition lower :: "string \<Rightarrow> string" where
  "lower s = map lower_char s"

fun contains :: "string \<Rightarrow> string \<Rightarrow> bool" where
  "contains [] t = (t = [])"
| "contains (c # cs) t = (take (length t) (c # cs) = t \<or> contains cs t)"

definition any_in :: "string list \<Rightarrow> string \<Rightarrow> bool" where
  "any_in terms s = list_ex (contains s) terms"

definition extract_project_context :: "env \<Rightarrow> conversation \<Rightarrow> string" where
  "extract_project_context E conversation =
     (let content_sample =
            concat (map (\<lambda>msg. take 500 (str E (content msg))) (take 3 (messages conversation)));
          content_lower = lower content_sample
      in if any_in [''python'', ''.py'', ''import '', ''def ''] content_lower then ''python''
         else if any_in [''javascript'', ''.js'', ''npm'', ''node''] content_lower then ''javascript''
         else if any_in [''react'', ''jsx'', ''component''] content_lower then ''react''
         else if any_in [''html'', ''css'', ''web'', ''website''] content_lower then ''web''
         else if any_in [''debug'', ''error'', ''bug'', ''fix''] content_lower then ''debugging''
         else if any_in [''data'', ''analysis'', ''csv'', ''pandas''] content_lower then ''data''
         else ''general'')"

section \<open>The dashboard analyzer: reconstruction\<close>

subsection \<open>The content of an assistant message\<close>

text \<open>
  The loop over \<^verbatim>\<open>content_parts\<close>: a part that is a dict of type \<^verbatim>\<open>text\<close> gives its
  \<^verbatim>\<open>text\<close> (default \<^verbatim>\<open>''\<close>), one of type \<^verbatim>\<open>tool_use\<close> gives the marker with its \<^verbatim>\<open>name\<close>
  (default \<^verbatim>\<open>unknown_tool\<close>) as the f-string formats it; any other part is passed over.
  The list \<^verbatim>\<open>text_content\<close> is the accumulator.
\<close>

fun collect_text :: "env \<Rightarrow> json list \<Rightarrow> json list \<Rightarrow> json list" where
  "collect_text E [] text_content = text_content"
| "collect_text E (part # parts) text_content =
     collect_text E parts
       (case part of
          JObj kvs \<Rightarrow>
            if get kvs ''type'' = Some (JStr ''text'') then
              text_content @ [case get kvs ''text'' of None \<Rightarrow> JStr [] | Some v \<Rightarrow> v]
            else if get kvs ''type'' = Some (JStr ''tool_use'') then
              text_content @
                [JStr (''[Tool: '' @
                   str E (case get kvs ''name'' of None \<Rightarrow> JStr ''unknown_tool'' | Some v \<Rightarrow> v)
                   @ '']'')]
            else text_content
        | _ \<Rightarrow> text_content)"

text \<open>\<^verbatim>\<open>'\n'.join(text_content)\<close> raises TypeError on an item that is not a string.\<close>

fun strings :: "json list \<Rightarrow> string list option" where
  "strings [] = Some []"
| "strings (JStr s # xs) = (case strings xs of None \<Rightarrow> None | Some ss \<Rightarrow> Some (s # ss))"
| "strings (_ # xs) = None"

definition assistant_content :: "env \<Rightarrow> json \<Rightarrow> py_error + json" where
  "assistant_content E content_parts =
     (case content_parts of
        JList parts \<Rightarrow>
          (case strings (collect_text E parts []) of
             None \<Rightarrow> Inl TypeError
           | Some text_content \<Rightarrow> Inr (JStr (join [CHR 0x0A] text_content)))
      | JStr s \<Rightarrow> Inr (JStr s)
      | _ \<Rightarrow> Inr (JStr []))"

subsection \<open>\<^verbatim>\<open>process_session_entries\<close>\<close>

definition new_conversation :: "string \<Rightarrow> string \<Rightarrow> conversation" where
  "new_conversation session_id path =
     \<lparr>conv_id = session_id, file_path = path, messages = [], total_tokens = 0,
      model = ''unknown'', created_at = None, last_activity = None,
      status = ''completed'', project_context = ''unknown''\<rparr>"

text \<open>The lines under \<^verbatim>\<open># Update timestamps\<close>, the same in both reconstruction paths.\<close>

definition update_timestamps :: "conversation \<Rightarrow> string option \<Rightarrow> conversation" where
  "update_timestamps conversation ts =
     (if nonempty ts then
        (if \<not> nonempty (created_at conversation) then conversation\<lparr>created_at := ts\<rparr>
         else conversation)\<lparr>last_activity := ts\<rparr>
      else conversation)"

text \<open>The end of the loop body: estimate when no tokens were set, append, add, update.\<close>

definition append_message :: "env \<Rightarrow> conversation \<Rightarrow> message_info \<Rightarrow> conversation" where
  "append_message E conversation message_info =
     (let message_info =
            (if tokens message_info = 0
             then message_info\<lparr>tokens := estimate_tokens E (content message_info)\<rparr>
             else message_info)
      in update_timestamps
           (conversation\<lparr>messages := messages conversation @ [message_info],
                          total_tokens := total_tokens conversation + tokens message_info\<rparr>)
           (timestamp message_info))"

text \<open>The loop body for one entry. A TypeError leaves the loop and the function.\<close>

definition process_entry :: "env \<Rightarrow> conversation \<Rightarrow> entry \<Rightarrow> py_error + conversation" where
  "process_entry E conversation entry =
     (let message_info =
            \<lparr>role = (case e_type entry of None \<Rightarrow> ''unknown'' | Some t \<Rightarrow> t),
             content = JStr [], timestamp = e_timestamp entry, tokens = 0\<rparr>
      in
      if e_type entry = Some ''user'' then
        Inr (append_message E conversation
               (message_info\<lparr>role := ''user'',
                  content := (case m_content (message_of entry) of
                                None \<Rightarrow> JStr [] | Some c \<Rightarrow> c)\<rparr>))
      else if e_type entry = Some ''assistant'' then
        (let message_data = message_of entry;
             conversation =
               (if nonempty (m_model message_data)
                then conversation\<lparr>model := the (m_model message_data)\<rparr>
                else conversation)
         in
         case assistant_content E
                (case m_content message_data of None \<Rightarrow> JList [] | Some c \<Rightarrow> c) of
           Inl err \<Rightarrow> Inl err
         | Inr c \<Rightarrow>
             (let message_info = message_info\<lparr>role := ''assistant'', content := c\<rparr>;
                  message_info =
                    (if usage_truthy (m_usage message_data)
                     then message_info
                            \<lparr>tokens := or_zero (input_tokens (the (m_usage message_data)))
                                       + or_zero (output_tokens (the (m_usage message_data)))\<rparr>
                     else message_info)
              in Inr (append_message E conversation message_info)))
      else Inr (append_message E conversation message_info))"

fun process_entries :: "env \<Rightarrow> conversation \<Rightarrow> entry list \<Rightarrow> py_error + conversation" where
  "process_entries E conversation [] = Inr conversation"
| "process_entries E conversation (entry # entries) =
     (case process_entry E conversation entry of
        Inl err \<Rightarrow> Inl err
      | Inr conversation' \<Rightarrow> process_entries E conversation' entries)"

text \<open>
  \<^verbatim>\<open>entries.sort(key=lambda x: x.get('timestamp', ''))\<close>: a stable sort on the timestamp
  strings, in the order of their characters; a missing timestamp is the empty string.
\<close>

definition timestamp_key :: "entry \<Rightarrow> string" where
  "timestamp_key x = (case e_timestamp x of None \<Rightarrow> [] | Some t \<Rightarrow> t)"

text \<open>
  The last argument is \<^verbatim>\<open>self.conversations\<close>: the function returns it with the new
  conversation appended, or the error that left it as it was.
\<close>

definition process_session_entries ::
  "env \<Rightarrow> entry list \<Rightarrow> string \<Rightarrow> string \<Rightarrow> conversation list \<Rightarrow> py_error + conversation list"
where
  "process_session_entries E entries session_id path conversations =
     (case process_entries E (new_conversation session_id path)
             (sort_key timestamp_key entries) of
        Inl err \<Rightarrow> Inl err
      | Inr conversation \<Rightarrow>
          (let conversation =
                 conversation\<lparr>status :=
                   determine_conversation_status E (now E (length conversations)) conversation\<rparr>;
               conversation =
                 conversation\<lparr>project_context := extract_project_context E conversation\<rparr>
           in Inr (conversations @ [conversation])))"

subsection \<open>\<^verbatim>\<open>process_jsonl_file\<close>\<close>

text \<open>
  A line of a line-delimited file, as \<^verbatim>\<open>json.loads(line.strip())\<close> sees it: blank after
  stripping, not JSON (JSONDecodeError), the entry it holds when it is a JSON object, or
  the value it holds when it is valid JSON of another kind (a number, a string, a list,
  \<^verbatim>\<open>null\<close>).
\<close>

datatype line = Blank | Invalid | Parsed entry | NotObject json

text \<open>The decimal digits of a line number, as the f-string writes them.\<close>

fun str_nat :: "nat \<Rightarrow> string" where
  "str_nat n =
     (if n < 10 then [char_of (48 + n)]
      else str_nat (n div 10) @ [char_of (48 + n mod 10)])"

declare str_nat.simps [simp del]

definition session_key :: "nat \<Rightarrow> entry \<Rightarrow> string" where
  "session_key line_num entry =
     (case e_sessionId entry of None \<Rightarrow> ''session_'' @ str_nat line_num | Some s \<Rightarrow> s)"

text \<open>
  \<^verbatim>\<open>conversations_by_session[session_id].append(entry)\<close> on a \<^verbatim>\<open>defaultdict(list)\<close>, which
  keeps its keys in the order they were first used.
\<close>

fun append_to :: "string \<Rightarrow> entry \<Rightarrow> (string \<times> entry list) list \<Rightarrow> (string \<times> entry list) list"
where
  "append_to k e [] = [(k, [e])]"
| "append_to k e ((k', es) # rest) =
     (if k' = k then (k', es @ [e]) # rest else (k', es) # append_to k e rest)"

text \<open>
  The loop over the lines, from line number \<open>line_num\<close>: the dict so far and the line
  numbers a warning was printed for. \<^verbatim>\<open>json.loads('')\<close> raises JSONDecodeError, so a
  blank line is warned about and passed over like any other line that does not parse.
  On a value that is not an object \<^verbatim>\<open>entry.get\<close> raises AttributeError, which the
  \<^verbatim>\<open>except json.JSONDecodeError\<close> of the loop does not catch: the loop and the function end
  there.
\<close>

fun group_lines ::
  "nat \<Rightarrow> line list \<Rightarrow> (string \<times> entry list) list \<times> nat list
     \<Rightarrow> ((string \<times> entry list) list \<times> nat list) \<times> py_error option"
where
  "group_lines line_num [] acc = (acc, None)"
| "group_lines line_num (l # ls) (by_session, warned) =
     (case l of
        Parsed entry \<Rightarrow>
          group_lines (Suc line_num) ls
            (append_to (session_key line_num entry) entry by_session, warned)
      | NotObject v \<Rightarrow> ((by_session, warned), Some AttributeError)
      | _ \<Rightarrow> group_lines (Suc line_num) ls (by_session, warned @ [line_num]))"

text \<open>The dict when the loop ends, and the line numbers warned about.\<close>

definition conversations_by_session :: "line list \<Rightarrow> (string \<times> entry list) list" where
  "conversations_by_session ls = fst (fst (group_lines 1 ls ([], [])))"

definition warned_lines :: "line list \<Rightarrow> nat list" where
  "warned_lines ls = snd (fst (group_lines 1 ls ([], [])))"

text \<open>
  The loop over the sessions. An error of \<^verbatim>\<open>process_session_entries\<close> leaves the function;
  the conversations appended before it stay in \<^verbatim>\<open>self.conversations\<close>.
\<close>

fun process_sessions ::
  "env \<Rightarrow> string \<Rightarrow> (string \<times> entry list) list \<Rightarrow> conversation list
     \<Rightarrow> conversation list \<times> py_error option"
where
  "process_sessions E path [] conversations = (conversations, None)"
| "process_sessions E path ((session_id, entries) # rest) conversations =
     (case process_session_entries E entries session_id path conversations of
        Inl err \<Rightarrow> (conversations, Some err)
      | Inr conversations' \<Rightarrow> process_sessions E path rest conversations')"

text \<open>
  The sessions are processed after the loop over the lines: when that loop raises, no
  session of the file is processed, and \<^verbatim>\<open>self.conversations\<close> stays as it was.
\<close>

definition process_jsonl_file ::
  "env \<Rightarrow> string \<Rightarrow> line list \<Rightarrow> conversation list \<Rightarrow> conversation list \<times> py_error option"
where
  "process_jsonl_file E path ls conversations =
     (case snd (group_lines 1 ls ([], [])) of
        Some err \<Rightarrow> (conversations, Some err)
      | None \<Rightarrow> process_sessions E path (conversations_by_session ls) conversations)"

subsection \<open>\<^verbatim>\<open>process_conversation_file\<close>\<close>

text \<open>
  A whole-file JSON document: a list, a dict with a \<^verbatim>\<open>messages\<close> list, or any other
  value, which is then the only message. A message that is not a dict is passed over.
\<close>

record raw_msg =
  w_role :: "string option"
  w_content :: "json option"
  w_timestamp :: "string option"
  w_model :: "string option"

datatype item = Dict raw_msg | NotDict

datatype json_data = DataList "item list" | DataMessages "item list" | DataOther item

definition messages_of :: "json_data \<Rightarrow> item list" where
  "messages_of data =
     (case data of DataList xs \<Rightarrow> xs | DataMessages xs \<Rightarrow> xs | DataOther x \<Rightarrow> [x])"

definition process_msg :: "env \<Rightarrow> conversation \<Rightarrow> item \<Rightarrow> conversation" where
  "process_msg E conversation msg =
     (case msg of
        NotDict \<Rightarrow> conversation
      | Dict d \<Rightarrow>
          (let c = (case w_content d of None \<Rightarrow> JStr [] | Some v \<Rightarrow> v);
               message_info =
                 \<lparr>role = (case w_role d of None \<Rightarrow> ''unknown'' | Some r \<Rightarrow> r),
                  content = c, timestamp = w_timestamp d, tokens = estimate_tokens E c\<rparr>;
               conversation =
                 conversation\<lparr>messages := messages conversation @ [message_info],
                   total_tokens := total_tokens conversation + tokens message_info\<rparr>;
               conversation =
                 (case w_model d of
                    None \<Rightarrow> conversation
                  | Some m \<Rightarrow> conversation\<lparr>model := m\<rparr>)
           in update_timestamps conversation (timestamp message_info)))"

text \<open>A path, as the program uses it: \<^verbatim>\<open>str(file_path)\<close> and \<^verbatim>\<open>file_path.stem\<close>.\<close>

record path =
  path_str :: string
  stem :: string

definition process_conversation_file ::
  "env \<Rightarrow> json_data \<Rightarrow> path \<Rightarrow> conversation list \<Rightarrow> conversation list"
where
  "process_conversation_file E data p conversations =
     (let conversation =
            foldl (process_msg E) (new_conversation (stem p) (path_str p)) (messages_of data);
          conversation =
            conversation\<lparr>status :=
              determine_conversation_status E (now E (length conversations)) conversation\<rparr>;
          conversation =
            conversation\<lparr>project_context := extract_project_context E conversation\<rparr>
      in conversations @ [conversation])"

subsection \<open>\<^verbatim>\<open>load_conversation_data\<close>\<close>

text \<open>
  The files found: first the \<^verbatim>\<open>.json\<close> files, then the \<^verbatim>\<open>.jsonl\<close> files, each with what
  reading it gives, \<open>None\<close> when opening, decoding or \<^verbatim>\<open>json.load\<close> raises. Every file is
  processed on its own; an exception is printed and the next file is taken.
\<close>

record data_dir =
  json_files :: "(path \<times> json_data option) list"
  jsonl_files :: "(path \<times> line list option) list"

definition load_json_file ::
  "env \<Rightarrow> conversation list \<Rightarrow> path \<times> json_data option \<Rightarrow> conversation list"
where
  "load_json_file E conversations f =
     (case snd f of
        None \<Rightarrow> conversations
      | Some data \<Rightarrow> process_conversation_file E data (fst f) conversations)"

definition load_jsonl_file ::
  "env \<Rightarrow> conversation list \<Rightarrow> path \<times> line list option \<Rightarrow> conversation list"
where
  "load_jsonl_file E conversations f =
     (case snd f of
        None \<Rightarrow> conversations
      | Some ls \<Rightarrow> fst (process_jsonl_file E (path_str (fst f)) ls conversations))"

definition load_conversation_data :: "env \<Rightarrow> data_dir \<Rightarrow> conversation list \<Rightarrow> conversation list"
where
  "load_conversation_data E d conversations =
     foldl (load_jsonl_file E) (foldl (load_json_file E) conversations (json_files d))
       (jsonl_files d)"

section \<open>The dashboard analyzer: aggregation and the dashboard\<close>

text \<open>
  The state of a \<^verbatim>\<open>ClaudeAnalyzer\<close>: \<^verbatim>\<open>self.conversations\<close> and \<^verbatim>\<open>self.usage_stats\<close>,
  which is the empty dict (\<open>None\<close>) until the aggregation fills it.
  A \<^verbatim>\<open>Counter\<close> and a \<^verbatim>\<open>defaultdict\<close> are association lists in the order the keys were
  first counted. The two averages are Python floats, modelled by the exact quotient.
\<close>

record usage_stats =
  total_conversations :: nat
  total_messages :: nat
  stats_total_tokens :: int
  models :: "(string \<times> nat) list"
  projects :: "(string \<times> nat) list"
  daily_usage :: "((int \<times> int \<times> int) \<times> nat \<times> int) list"
  statuses :: "(string \<times> nat) list"
  avg_tokens_per_conversation :: rat
  avg_messages_per_conversation :: rat

record analyzer =
  conversations :: "conversation list"
  usage_stats :: "usage_stats option"

fun count_one :: "'a \<Rightarrow> ('a \<times> nat) list \<Rightarrow> ('a \<times> nat) list" where
  "count_one x [] = [(x, 1)]"
| "count_one x ((y, n) # rest) =
     (if y = x then (y, Suc n) # rest else (y, n) # count_one x rest)"

definition Counter :: "'a list \<Rightarrow> ('a \<times> nat) list" where
  "Counter xs = foldl (\<lambda>m x. count_one x m) [] xs"

text \<open>\<^verbatim>\<open>daily_usage[date_str]['conversations'] += 1\<close> and the tokens added to the same day.\<close>

fun add_day ::
  "(int \<times> int \<times> int) \<Rightarrow> int \<Rightarrow> ((int \<times> int \<times> int) \<times> nat \<times> int) list
     \<Rightarrow> ((int \<times> int \<times> int) \<times> nat \<times> int) list"
where
  "add_day d t [] = [(d, 1, t)]"
| "add_day d t ((d', n, s) # rest) =
     (if d' = d then (d', Suc n, s + t) # rest else (d', n, s) # add_day d t rest)"

definition daily_step ::
  "env \<Rightarrow> ((int \<times> int \<times> int) \<times> nat \<times> int) list \<Rightarrow> conversation
     \<Rightarrow> ((int \<times> int \<times> int) \<times> nat \<times> int) list"
where
  "daily_step E daily conv =
     (if nonempty (created_at conv) then
        (case fromisoformat E (replace CHR ''Z'' ''+00:00'' (the (created_at conv))) of
           None \<Rightarrow> daily
         | Some t \<Rightarrow> add_day (date t) (total_tokens conv) daily)
      else daily)"

definition analyze_usage_patterns :: "env \<Rightarrow> analyzer \<Rightarrow> analyzer" where
  "analyze_usage_patterns E self =
     (if conversations self = [] then self
      else
        let n = length (conversations self);
            msgs = (\<Sum>conv \<leftarrow> conversations self. length (messages conv));
            toks = (\<Sum>conv \<leftarrow> conversations self. total_tokens conv)
        in self\<lparr>usage_stats := Some
             \<lparr>total_conversations = n,
              total_messages = msgs,
              stats_total_tokens = toks,
              models = Counter (map model (conversations self)),
              projects = Counter (map project_context (conversations self)),
              daily_usage = foldl (daily_step E) [] (conversations self),
              statuses = Counter (map status (conversations self)),
              avg_tokens_per_conversation = of_int toks / of_nat (max n 1),
              avg_messages_per_conversation = of_nat msgs / of_nat (max n 1)\<rparr>\<rparr>)"

subsection \<open>\<^verbatim>\<open>generate_enhanced_html\<close>, as far as it touches the conversations\<close>




definition clean_content :: "env \<Rightarrow> json \<Rightarrow> json" where
  "clean_content E c =
     (let content = str E c;
          content = (if length content > 500 then take 497 content @ ''...'' else content)
      in JStr (replace (CHR 0x09) [CHR 0x5C, CHR ''t'']
                (replace (CHR 0x0D) [CHR 0x5C, CHR ''r'']
                  (replace (CHR 0x0A) [CHR 0x5C, CHR ''n''] content))))"

definition clean_conversation :: "env \<Rightarrow> conversation \<Rightarrow> conversation" where
  "clean_conversation E conv =
     conv\<lparr>messages := map (\<lambda>msg. msg\<lparr>content := clean_content E (content msg)\<rparr>) (messages conv)\<rparr>"


section \<open>The report analyzer: \<^verbatim>\<open>load_jsonl\<close>\<close>

text \<open>
  What opening and reading the file gives: the file is missing; reading fails, at once or
  after some lines were read; or all its lines. The function returns \<^verbatim>\<open>None\<close> in the
  first two cases. What it prints is kept: a warning names the line it passes over, and
  the warnings for the lines read before a failure are printed before the error.
  \<^verbatim>\<open>data\<close> holds what \<^verbatim>\<open>json.loads\<close> returned for each line that parses, an object or not.
\<close>

datatype file_read = NotFound | ReadError "line list" | Lines "line list"

datatype printed = Warning nat | ErrorNotFound | ErrorReading

datatype loaded = Entry entry | Other json

fun load_lines ::
  "nat \<Rightarrow> line list \<Rightarrow> loaded list \<times> printed list \<Rightarrow> loaded list \<times> printed list"
where
  "load_lines line_num [] acc = acc"
| "load_lines line_num (l # ls) (data, out) =
     load_lines (Suc line_num) ls
       (case l of
          Blank \<Rightarrow> (data, out)
        | Parsed entry \<Rightarrow> (data @ [Entry entry], out)
        | NotObject v \<Rightarrow> (data @ [Other v], out)
        | Invalid \<Rightarrow> (data, out @ [Warning line_num]))"

definition load_jsonl :: "file_read \<Rightarrow> loaded list option \<times> printed list" where
  "load_jsonl f =
     (case f of
        NotFound \<Rightarrow> (None, [ErrorNotFound])
      | ReadError ls \<Rightarrow> (None, snd (load_lines 1 ls ([], [])) @ [ErrorReading])
      | Lines ls \<Rightarrow> (let (data, out) = load_lines 1 ls ([], []) in (Some data, out)))"

section \<open>An instance of the library functions\<close>

text \<open>
  For the examples: \<^verbatim>\<open>datetime.fromisoformat\<close> on the strings
  \<^verbatim>\<open>YYYY-MM-DD?HH:MM:SS[.fff[fff]][+HH:MM|-HH:MM]\<close>, which every version of the library
  reads the same way (\<open>iso\<close> reads no other string), and \<^verbatim>\<open>str\<close> of a JSON value with
  ASCII strings.
\<close>

definition is_digit :: "char \<Rightarrow> bool" where
  "is_digit c = (CHR ''0'' \<le> c \<and> c \<le> CHR ''9'')"

definition number :: "string \<Rightarrow> int option" where
  "number s =
     (if s \<noteq> [] \<and> list_all is_digit s
      then Some (foldl (\<lambda>a c. 10 * a + (int (of_char c) - 48)) 0 s)
      else None)"

definition iso_date :: "string \<Rightarrow> (int \<times> int \<times> int) option" where
  "iso_date s =
     (case (number (take 4 s), number (take 2 (drop 5 s)), number (take 2 (drop 8 s))) of
        (Some y, Some m, Some d) \<Rightarrow>
          if length s = 10 \<and> s ! 4 = CHR ''-'' \<and> s ! 7 = CHR ''-''
             \<and> 1 \<le> y \<and> 1 \<le> m \<and> m \<le> 12 \<and> 1 \<le> d \<and> d \<le> days_in_month y m
          then Some (y, m, d) else None
      | _ \<Rightarrow> None)"

definition iso_time :: "string \<Rightarrow> (int \<times> int \<times> int) option" where
  "iso_time s =
     (case (number (take 2 s), number (take 2 (drop 3 s)), number (take 2 (drop 6 s))) of
        (Some h, Some mi, Some sec) \<Rightarrow>
          if length s = 8 \<and> s ! 2 = CHR '':'' \<and> s ! 5 = CHR '':''
             \<and> h < 24 \<and> mi < 60 \<and> sec < 60
          then Some (h, mi, sec) else None
      | _ \<Rightarrow> None)"

text \<open>The fraction of a second, in microseconds, and what follows it.\<close>

definition iso_fraction :: "string \<Rightarrow> (int \<times> string) option" where
  "iso_fraction s =
     (case s of
        c # rest \<Rightarrow>
          if c = CHR ''.'' then
            (let ds = takeWhile is_digit rest in
             if length ds = 3 then map_option (\<lambda>n. (n * 1000, drop 3 rest)) (number ds)
             else if length ds = 6 then map_option (\<lambda>n. (n, drop 6 rest)) (number ds)
             else None)
          else Some (0, s)
      | [] \<Rightarrow> Some (0, s))"

text \<open>The offset, in microseconds: \<open>Some None\<close> for a naive time, \<open>None\<close> for an error.\<close>

definition iso_offset :: "string \<Rightarrow> int option option" where
  "iso_offset s =
     (case s of
        [] \<Rightarrow> Some None
      | c # rest \<Rightarrow>
          (case (number (take 2 rest), number (drop 3 rest)) of
             (Some h, Some mi) \<Rightarrow>
               if (c = CHR ''+'' \<or> c = CHR ''-'') \<and> length rest = 5 \<and> rest ! 2 = CHR '':''
                  \<and> h < 24 \<and> mi < 60
               then Some (Some ((if c = CHR ''-'' then -1 else 1) * (h * 3600 + mi * 60) * 1000000))
               else None
           | _ \<Rightarrow> None))"

definition iso :: "string \<Rightarrow> datetime option" where
  "iso s =
     (if length s < 19 then None
      else
        case (iso_date (take 10 s), iso_time (take 8 (drop 11 s)), iso_fraction (drop 19 s)) of
          (Some (y, m, d), Some (h, mi, sec), Some (us, tz)) \<Rightarrow>
            (case iso_offset tz of
               None \<Rightarrow> None
             | Some off \<Rightarrow>
                 Some \<lparr>year = y, month = m, day = d, hour = h, minute = mi, second = sec,
                       microsecond = us, utcoffset = off\<rparr>)
        | _ \<Rightarrow> None)"

text \<open>\<^verbatim>\<open>repr\<close> of a string: the quote Python picks, and the escapes.\<close>

definition hex_digit :: "nat \<Rightarrow> char" where
  "hex_digit n = (if n < 10 then char_of (48 + n) else char_of (87 + n))"

definition repr_char :: "char \<Rightarrow> char \<Rightarrow> string" where
  "repr_char q c =
     (if c = q \<or> c = CHR 0x5C then [CHR 0x5C, c]
      else if c = CHR 0x0A then [CHR 0x5C, CHR ''n'']
      else if c = CHR 0x0D then [CHR 0x5C, CHR ''r'']
      else if c = CHR 0x09 then [CHR 0x5C, CHR ''t'']
      else if c < CHR 0x20 \<or> c = CHR 0x7F then
        [CHR 0x5C, CHR ''x'', hex_digit (of_char c div 16), hex_digit (of_char c mod 16)]
      else [c])"

definition repr_string :: "string \<Rightarrow> string" where
  "repr_string s =
     (let q = (if CHR 0x27 \<in> set s \<and> CHR 0x22 \<notin> set s
               then CHR 0x22 else CHR 0x27)
      in [q] @ concat (map (repr_char q) s) @ [q])"

definition str_int :: "int \<Rightarrow> string" where
  "str_int i = (if i < 0 then ''-'' @ str_nat (nat (- i)) else str_nat (nat i))"

fun py_repr :: "json \<Rightarrow> string"
and py_repr_list :: "json list \<Rightarrow> string list"
and py_repr_items :: "(string \<times> json) list \<Rightarrow> string list" where
  "py_repr JNull = ''None''"
| "py_repr (JBool b) = (if b then ''True'' else ''False'')"
| "py_repr (JInt i) = str_int i"
| "py_repr (JStr s) = repr_string s"
| "py_repr (JList xs) = ''['' @ join '', '' (py_repr_list xs) @ '']''"
| "py_repr (JObj kvs) = ''{'' @ join '', '' (py_repr_items kvs) @ ''}''"
| "py_repr_list [] = []"
| "py_repr_list (x # xs) = py_repr x # py_repr_list xs"
| "py_repr_items [] = []"
| "py_repr_items ((k, v) # kvs) = (repr_string k @ '': '' @ py_repr v) # py_repr_items kvs"

text \<open>The instance, with a clock that stands at \<open>t\<close>.\<close>

definition example_env :: "int \<Rightarrow> env" where
  "example_env t = \<lparr>fromisoformat = iso, py_str = py_repr, now = (\<lambda>_. t)\<rparr>"

text \<open>An instant of UTC, in microseconds from 0001-01-01T00:00:00.\<close>

definition utc :: "int \<Rightarrow> int \<Rightarrow> int \<Rightarrow> int \<Rightarrow> int \<Rightarrow> int \<Rightarrow> int" where
  "utc y m d h mi sec =
     wall_us \<lparr>year = y, month = m, day = d, hour = h, minute = mi, second = sec,
              microsecond = 0, utcoffset = Some 0\<rparr>"

section \<open>One run of the dashboard analyzer\<close>

text \<open>
  What \<^verbatim>\<open>main\<close> does with the analyzer once the data directory is known: load, aggregate,
  write the dashboard.
\<close>

definition analyzed :: "env \<Rightarrow> data_dir \<Rightarrow> analyzer" where
  "analyzed E d =
     analyze_usage_patterns E \<lparr>conversations = load_conversation_data E d [], usage_stats = None\<rparr>"


section \<open>Statements and example inputs\<close>

subsection \<open>The token rule of the line-delimited path\<close>

text \<open>
  What \<^verbatim>\<open>process_session_entries\<close> gives a message for tokens, read off the entry it
  comes from: the usage counts of an assistant entry when the usage block is not empty
  and the counts do not add up to zero, and the estimate on the normalized content in
  every other case.
\<close>

definition usage_sum :: "entry \<Rightarrow> int" where
  "usage_sum entry =
     (case m_usage (message_of entry) of
        None \<Rightarrow> 0
      | Some u \<Rightarrow> or_zero (input_tokens u) + or_zero (output_tokens u))"

definition token_rule :: "env \<Rightarrow> entry \<Rightarrow> message_info \<Rightarrow> bool" where
  "token_rule E entry m =
     (tokens m =
        (if e_type entry = Some ''assistant'' \<and> usage_truthy (m_usage (message_of entry))
            \<and> usage_sum entry \<noteq> 0
         then usage_sum entry
         else if truthy (content m) then int (length (str E (content m))) div 4
         else 0))"

text \<open>What a message keeps of its entry whatever the entry's type: the role and the timestamp.\<close>

definition from_entry :: "entry \<Rightarrow> message_info \<Rightarrow> bool" where
  "from_entry entry m =
     (role m = (case e_type entry of None \<Rightarrow> ''unknown'' | Some t \<Rightarrow> t)
      \<and> timestamp m = e_timestamp entry)"

subsection \<open>The lines of a file and the sessions they are filed under\<close>

text \<open>
  The lines are numbered as \<^verbatim>\<open>enumerate(f, 1)\<close> numbers them, from \<open>k\<close> here. An entry is
  named by the number of its line: two lines may hold equal entries.
  \<open>valid_entries\<close> are the numbered entries of the lines that hold an object,
  \<open>skipped_lines\<close> the numbers of the lines that are blank or do not parse,
  \<open>invalid_lines\<close> those of the lines that are not blank and do not parse, and
  \<open>loaded_values\<close> what \<^verbatim>\<open>json.loads\<close> returns for the lines that parse, in their order.
  A file is \<open>objects_only\<close> when every line of it that parses holds an object.
\<close>

definition valid_from :: "nat \<Rightarrow> line list \<Rightarrow> (nat \<times> entry) list" where
  "valid_from k ls =
     List.map_filter (\<lambda>(n, l). case l of Parsed e \<Rightarrow> Some (n, e) | _ \<Rightarrow> None) (enumerate k ls)"

definition skipped_from :: "nat \<Rightarrow> line list \<Rightarrow> nat list" where
  "skipped_from k ls =
     List.map_filter
       (\<lambda>(n, l). case l of Blank \<Rightarrow> Some n | Invalid \<Rightarrow> Some n | _ \<Rightarrow> None) (enumerate k ls)"

definition invalid_from :: "nat \<Rightarrow> line list \<Rightarrow> nat list" where
  "invalid_from k ls =
     List.map_filter (\<lambda>(n, l). case l of Invalid \<Rightarrow> Some n | _ \<Rightarrow> None) (enumerate k ls)"

definition valid_entries :: "line list \<Rightarrow> (nat \<times> entry) list" where
  "valid_entries ls = valid_from 1 ls"

definition skipped_lines :: "line list \<Rightarrow> nat list" where
  "skipped_lines ls = skipped_from 1 ls"

definition invalid_lines :: "line list \<Rightarrow> nat list" where
  "invalid_lines ls = invalid_from 1 ls"

definition loaded_values :: "line list \<Rightarrow> loaded list" where
  "loaded_values ls =
     List.map_filter
       (\<lambda>l. case l of Parsed e \<Rightarrow> Some (Entry e) | NotObject v \<Rightarrow> Some (Other v) | _ \<Rightarrow> None) ls"

definition is_object_line :: "line \<Rightarrow> bool" where
  "is_object_line l = (case l of NotObject v \<Rightarrow> False | _ \<Rightarrow> True)"

definition objects_only :: "line list \<Rightarrow> bool" where
  "objects_only ls = list_all is_object_line ls"

text \<open>
  The key a numbered entry is filed under, the numbered entries of a file with a given
  key, in the order of the lines, and the keys of a file in the order of their first use.
\<close>

definition key_of :: "nat \<times> entry \<Rightarrow> string" where
  "key_of p = session_key (fst p) (snd p)"

definition filed_under :: "line list \<Rightarrow> string \<Rightarrow> (nat \<times> entry) list" where
  "filed_under ls k = filter (\<lambda>p. key_of p = k) (valid_entries ls)"

definition first_seen :: "'a list \<Rightarrow> 'a list" where
  "first_seen xs = rev (remdups (rev xs))"

definition session_keys :: "line list \<Rightarrow> string list" where
  "session_keys ls = first_seen (map key_of (valid_entries ls))"

definition grouped :: "(nat \<times> entry) list \<Rightarrow> (string \<times> entry list) list" where
  "grouped ps =
     map (\<lambda>k. (k, map snd (filter (\<lambda>p. key_of p = k) ps))) (first_seen (map key_of ps))"

text \<open>One step of the loop of \<^verbatim>\<open>process_jsonl_file\<close> on a line that parses.\<close>

definition file_step ::
  "(string \<times> entry list) list \<Rightarrow> nat \<times> entry \<Rightarrow> (string \<times> entry list) list" where
  "file_step m p = append_to (key_of p) (snd p) m"

text \<open>
  The conversations built from a file: one for each key, in the order of first use,
  named by the key, its messages coming one by one from the entries filed under the key,
  sorted by timestamp.
\<close>

definition one_per_session :: "line list \<Rightarrow> conversation list \<Rightarrow> bool" where
  "one_per_session ls new =
     (map conv_id new = session_keys ls
      \<and> distinct (session_keys ls)
      \<and> list_all2
           (\<lambda>c k. list_all2 from_entry
                    (sort_key timestamp_key (map snd (filed_under ls k))) (messages c))
           new (session_keys ls))"

text \<open>The value of a string of decimal digits.\<close>

definition digits_value :: "string \<Rightarrow> nat" where
  "digits_value s = foldl (\<lambda>a c. 10 * a + (of_char c - 48)) 0 s"

subsection \<open>The timestamps of a conversation\<close>

text \<open>
  The timestamps of the messages of a conversation that Python takes for true, in the
  order of the messages, as strings; a missing timestamp counts as the empty string.
  \<open>stamp_step\<close> is what one message does to \<^verbatim>\<open>created_at\<close> and \<^verbatim>\<open>last_activity\<close>.
  \<open>parsed\<close> is the instant a timestamp stands for, read the way the program reads a
  timestamp where it parses one.
\<close>

definition stamp_of :: "string option \<Rightarrow> string" where
  "stamp_of ts = (case ts of None \<Rightarrow> [] | Some t \<Rightarrow> t)"

definition message_stamps :: "conversation \<Rightarrow> string list" where
  "message_stamps c =
     filter (\<lambda>t. t \<noteq> []) (map (\<lambda>m. stamp_of (timestamp m)) (messages c))"

definition stamp_step ::
  "string option \<times> string option \<Rightarrow> string option \<Rightarrow> string option \<times> string option" where
  "stamp_step s ts =
     (if nonempty ts then ((if \<not> nonempty (fst s) then ts else fst s), ts) else s)"

definition parsed :: "env \<Rightarrow> string \<Rightarrow> int option" where
  "parsed E ts =
     (case fromisoformat E (replace CHR ''Z'' ''+00:00'' ts) of
        None \<Rightarrow> None
      | Some t \<Rightarrow> (case utcoffset t of None \<Rightarrow> None | Some off \<Rightarrow> Some (wall_us t - off)))"

subsection \<open>The model names a conversation sees\<close>

text \<open>
  In a session: the model names of the entries of type \<^verbatim>\<open>assistant\<close> that are present and
  not empty, in the order of the entries. In a whole-file document: the model names of
  the messages that have the key \<^verbatim>\<open>model\<close>, whatever the role and the name. \<open>last_or\<close> is
  the last item of a list, or a default.
\<close>

definition assistant_models :: "entry list \<Rightarrow> string list" where
  "assistant_models es =
     map (\<lambda>e. the (m_model (message_of e)))
       (filter (\<lambda>e. e_type e = Some ''assistant'' \<and> nonempty (m_model (message_of e))) es)"

definition file_models :: "item list \<Rightarrow> string list" where
  "file_models items =
     List.map_filter (\<lambda>x. case x of Dict d \<Rightarrow> w_model d | NotDict \<Rightarrow> None) items"

definition last_or :: "'a \<Rightarrow> 'a list \<Rightarrow> 'a" where
  "last_or d xs = (if xs = [] then d else last xs)"

subsection \<open>A conversation apart from the content of its messages\<close>

text \<open>
  The conversation with the content of every message blanked: two conversations with the
  same frame agree on every field of the conversation and, message by message, on the
  role, the timestamp and the tokens.
\<close>

definition frame :: "conversation \<Rightarrow> conversation" where
  "frame c = c\<lparr>messages := map (\<lambda>m. m\<lparr>content := JNull\<rparr>) (messages c)\<rparr>"

subsection \<open>Conversations and statistics apart from the status\<close>

text \<open>
  A conversation with its status blanked, the statistics with the count of statuses
  blanked, and the statistics the aggregation computes for a list of conversations.
\<close>

definition erase :: "conversation \<Rightarrow> conversation" where
  "erase c = c\<lparr>status := []\<rparr>"

definition without_statuses :: "usage_stats \<Rightarrow> usage_stats" where
  "without_statuses s = s\<lparr>statuses := []\<rparr>"

definition summary :: "env \<Rightarrow> conversation list \<Rightarrow> usage_stats" where
  "summary E cs =
     \<lparr>total_conversations = length cs,
      total_messages = (\<Sum>conv \<leftarrow> cs. length (messages conv)),
      stats_total_tokens = (\<Sum>conv \<leftarrow> cs. total_tokens conv),
      models = Counter (map model cs),
      projects = Counter (map project_context cs),
      daily_usage = foldl (daily_step E) [] cs,
      statuses = Counter (map status cs),
      avg_tokens_per_conversation = of_int (\<Sum>conv \<leftarrow> cs. total_tokens conv) / of_nat (max (length cs) 1),
      avg_messages_per_conversation =
        of_nat (\<Sum>conv \<leftarrow> cs. length (messages conv)) / of_nat (max (length cs) 1)\<rparr>"

subsection \<open>The lines of an assistant message\<close>


subsection \<open>Example entries\<close>

text \<open>The two lines of the specification's example, and a user entry with a usage block.\<close>

definition example_user :: entry where
  "example_user =
     \<lparr>e_sessionId = Some ''a'', e_type = Some ''user'',
      e_timestamp = Some ''2024-01-01T00:00:00Z'',
      e_message = Some \<lparr>m_content = Some (JStr ''hi''), m_model = None, m_usage = None\<rparr>\<rparr>"

definition example_assistant :: entry where
  "example_assistant =
     \<lparr>e_sessionId = Some ''a'', e_type = Some ''assistant'',
      e_timestamp = Some ''2024-01-01T00:01:00Z'',
      e_message = Some
        \<lparr>m_content = Some (JList [JObj [(''type'', JStr ''text''), (''text'', JStr ''hello'')]]),
         m_model = Some ''m1'',
         m_usage = Some \<lparr>input_tokens = Some 3, output_tokens = Some 2, other_fields = []\<rparr>\<rparr>\<rparr>"

definition user_with_usage :: entry where
  "user_with_usage =
     \<lparr>e_sessionId = Some ''a'', e_type = Some ''user'', e_timestamp = None,
      e_message = Some
        \<lparr>m_content = Some (JStr ''hi''), m_model = None,
         m_usage = Some \<lparr>input_tokens = Some 3, output_tokens = Some 2, other_fields = []\<rparr>\<rparr>\<rparr>"


definition entry_b :: entry where
  "entry_b =
     \<lparr>e_sessionId = Some ''b'', e_type = Some ''user'',
      e_timestamp = Some ''2024-01-01T00:00:30Z'',
      e_message = Some \<lparr>m_content = Some (JStr ''hello''), m_model = None, m_usage = None\<rparr>\<rparr>"

definition entry_none :: entry where
  "entry_none =
     \<lparr>e_sessionId = None, e_type = Some ''user'', e_timestamp = None,
      e_message = Some \<lparr>m_content = Some (JStr ''single shot''), m_model = None, m_usage = None\<rparr>\<rparr>"

definition entry_session_6 :: entry where
  "entry_session_6 =
     \<lparr>e_sessionId = Some ''session_6'', e_type = Some ''user'', e_timestamp = None,
      e_message = Some \<lparr>m_content = Some (JStr ''named''), m_model = None, m_usage = None\<rparr>\<rparr>"

definition example_log :: "line list" where
  "example_log =
     [Parsed example_user, Invalid, Parsed entry_b, Blank, Parsed example_assistant,
      Parsed entry_none, Parsed entry_session_6, Parsed entry_none]"

definition one_jsonl :: path where
  "one_jsonl = \<lparr>path_str = ''one.jsonl'', stem = ''one''\<rparr>"

definition two_jsonl :: path where
  "two_jsonl = \<lparr>path_str = ''two.jsonl'', stem = ''two''\<rparr>"

text \<open>
  Two entries of one session whose timestamps differ in form: a whole second, and half
  a second later with the fraction written out.
\<close>

definition whole_second :: entry where
  "whole_second =
     \<lparr>e_sessionId = Some ''a'', e_type = Some ''user'',
      e_timestamp = Some ''2024-01-01T00:00:00Z'',
      e_message = Some \<lparr>m_content = Some (JStr ''first''), m_model = None, m_usage = None\<rparr>\<rparr>"

definition half_second :: entry where
  "half_second =
     \<lparr>e_sessionId = Some ''a'', e_type = Some ''user'',
      e_timestamp = Some ''2024-01-01T00:00:00.500Z'',
      e_message = Some \<lparr>m_content = Some (JStr ''second''), m_model = None, m_usage = None\<rparr>\<rparr>"

text \<open>The path of a whole-file document.\<close>

definition chat_json :: path where
  "chat_json = \<lparr>path_str = ''chat.json'', stem = ''chat''\<rparr>"


text \<open>A directory with one log of one line, whose message has two lines of text.\<close>

definition two_line_entry :: entry where
  "two_line_entry =
     \<lparr>e_sessionId = Some ''a'', e_type = Some ''user'',
      e_timestamp = Some ''2024-01-01T00:00:00Z'',
      e_message = Some \<lparr>m_content = Some (JStr (''one'' @ [CHR 0x0A] @ ''two'')),
                        m_model = None, m_usage = None\<rparr>\<rparr>"

definition two_line_dir :: data_dir where
  "two_line_dir = \<lparr>json_files = [], jsonl_files = [(one_jsonl, Some [Parsed two_line_entry])]\<rparr>"


text \<open>A log of three lines whose second line is the number 5.\<close>

definition log_with_number :: "line list" where
  "log_with_number = [Parsed example_user, NotObject (JInt 5), Parsed example_assistant]"



text \<open>
  A whole-file document of two messages, an assistant message with the model \<^verbatim>\<open>m1\<close> and a
  user message with the model \<^verbatim>\<open>""\<close>, and the same exchange as two entries of a
  line-delimited log.
\<close>

definition named_then_empty :: json_data where
  "named_then_empty =
     DataList
       [Dict \<lparr>w_role = Some ''assistant'', w_content = Some (JStr ''hi''),
               w_timestamp = None, w_model = Some ''m1''\<rparr>,
        Dict \<lparr>w_role = Some ''user'', w_content = Some (JStr ''ok''),
               w_timestamp = None, w_model = Some []\<rparr>]"

definition assistant_m1 :: entry where
  "assistant_m1 =
     \<lparr>e_sessionId = Some ''a'', e_type = Some ''assistant'', e_timestamp = None,
      e_message = Some \<lparr>m_content = Some (JStr ''hi''), m_model = Some ''m1'', m_usage = None\<rparr>\<rparr>"

definition user_empty_model :: entry where
  "user_empty_model =
     \<lparr>e_sessionId = Some ''a'', e_type = Some ''user'', e_timestamp = None,
      e_message = Some \<lparr>m_content = Some (JStr ''ok''), m_model = Some [], m_usage = None\<rparr>\<rparr>"

section \<open>What a session's conversation holds\<close>

lemma nonempty_simps [simp]:
  "nonempty None = False" "nonempty (Some s) = (s \<noteq> [])"
  by (simp_all add: nonempty_def)

lemma messages_update_timestamps [simp]:
  "messages (update_timestamps c ts) = messages c"
  by (simp add: update_timestamps_def)

lemma messages_append_message:
  "messages (append_message E c m) =
     messages c @ [if tokens m = 0 then m\<lparr>tokens := estimate_tokens E (content m)\<rparr> else m]"
  by (simp add: append_message_def Let_def)

lemma conv_id_update_timestamps [simp]:
  "conv_id (update_timestamps c ts) = conv_id c"
  by (simp add: update_timestamps_def)

lemma conv_id_append_message [simp]:
  "conv_id (append_message E c m) = conv_id c"
  by (simp add: append_message_def Let_def)

lemma process_entry_last:
  assumes "process_entry E c e = Inr c'"
  shows "messages c' = messages c @ [last (messages c')]
         \<and> token_rule E e (last (messages c'))
         \<and> from_entry e (last (messages c'))
         \<and> conv_id c' = conv_id c"
  using assms
  by (auto simp: process_entry_def messages_append_message token_rule_def usage_sum_def Let_def
        estimate_tokens_def usage_truthy_def from_entry_def
      split: if_splits sum.splits option.splits)

lemma process_entries_messages:
  "process_entries E c es = Inr c' \<Longrightarrow>
     \<exists>new. messages c' = messages c @ new
       \<and> list_all2 (token_rule E) es new \<and> list_all2 from_entry es new
       \<and> conv_id c' = conv_id c"
proof (induction es arbitrary: c)
  case Nil
  then show ?case by simp
next
  case (Cons e es)
  from Cons.prems obtain c1 where s1: "process_entry E c e = Inr c1"
    and s2: "process_entries E c1 es = Inr c'"
    by (auto split: sum.splits)
  from process_entry_last [OF s1] obtain m where
    m: "messages c1 = messages c @ [m]" "token_rule E e m" "from_entry e m"
       "conv_id c1 = conv_id c"
    by blast
  from Cons.IH [OF s2] obtain new where
    n: "messages c' = messages c1 @ new" "list_all2 (token_rule E) es new"
       "list_all2 from_entry es new" "conv_id c' = conv_id c1"
    by blast
  show ?case
  proof (intro exI [of _ "m # new"] conjI)
    show "messages c' = messages c @ m # new" using m n by simp
  qed (use m n in simp_all)
qed

lemma process_session_entries_result:
  assumes "process_session_entries E entries session_id p convs = Inr convs'"
  shows "\<exists>c. convs' = convs @ [c] \<and> conv_id c = session_id
           \<and> list_all2 (token_rule E) (sort_key timestamp_key entries) (messages c)
           \<and> list_all2 from_entry (sort_key timestamp_key entries) (messages c)"
proof -
  from assms obtain c0 where
    c0: "process_entries E (new_conversation session_id p) (sort_key timestamp_key entries) = Inr c0"
    and res: "convs' = convs @
       [c0\<lparr>status := determine_conversation_status E (now E (length convs)) c0,
           project_context := extract_project_context E
             (c0\<lparr>status := determine_conversation_status E (now E (length convs)) c0\<rparr>)\<rparr>]"
    by (auto simp: process_session_entries_def Let_def split: sum.splits)
  from process_entries_messages [OF c0] have
    "list_all2 (token_rule E) (sort_key timestamp_key entries) (messages c0)"
    "list_all2 from_entry (sort_key timestamp_key entries) (messages c0)"
    "conv_id c0 = session_id"
    by (simp_all add: new_conversation_def)
  with res show ?thesis by simp
qed

section \<open>Lines, entries and sessions\<close>

lemma valid_from_simps [simp]:
  "valid_from k [] = []"
  "valid_from k (Parsed e # ls) = (k, e) # valid_from (Suc k) ls"
  "valid_from k (Blank # ls) = valid_from (Suc k) ls"
  "valid_from k (Invalid # ls) = valid_from (Suc k) ls"
  "valid_from k (NotObject v # ls) = valid_from (Suc k) ls"
  by (simp_all add: valid_from_def List.map_filter_simps)

lemma skipped_from_simps [simp]:
  "skipped_from k [] = []"
  "skipped_from k (Parsed e # ls) = skipped_from (Suc k) ls"
  "skipped_from k (Blank # ls) = k # skipped_from (Suc k) ls"
  "skipped_from k (Invalid # ls) = k # skipped_from (Suc k) ls"
  "skipped_from k (NotObject v # ls) = skipped_from (Suc k) ls"
  by (simp_all add: skipped_from_def List.map_filter_simps)

lemma invalid_from_simps [simp]:
  "invalid_from k [] = []"
  "invalid_from k (Parsed e # ls) = invalid_from (Suc k) ls"
  "invalid_from k (Blank # ls) = invalid_from (Suc k) ls"
  "invalid_from k (Invalid # ls) = k # invalid_from (Suc k) ls"
  "invalid_from k (NotObject v # ls) = invalid_from (Suc k) ls"
  by (simp_all add: invalid_from_def List.map_filter_simps)

lemma loaded_values_simps [simp]:
  "loaded_values [] = []"
  "loaded_values (Parsed e # ls) = Entry e # loaded_values ls"
  "loaded_values (NotObject v # ls) = Other v # loaded_values ls"
  "loaded_values (Blank # ls) = loaded_values ls"
  "loaded_values (Invalid # ls) = loaded_values ls"
  by (simp_all add: loaded_values_def List.map_filter_simps)

lemma objects_only_simps [simp]:
  "objects_only [] = True"
  "objects_only (Parsed e # ls) = objects_only ls"
  "objects_only (NotObject v # ls) = False"
  "objects_only (Blank # ls) = objects_only ls"
  "objects_only (Invalid # ls) = objects_only ls"
  by (simp_all add: objects_only_def is_object_line_def)

lemma group_lines_fold:
  "objects_only ls \<Longrightarrow>
   group_lines k ls (m, w) = ((foldl file_step m (valid_from k ls), w @ skipped_from k ls), None)"
proof (induction ls arbitrary: k m w)
  case Nil
  then show ?case by simp
next
  case (Cons l ls)
  then show ?case by (cases l) (simp_all add: file_step_def key_of_def)
qed

lemma group_lines_error:
  "snd (group_lines k ls (m, w)) = (if objects_only ls then None else Some AttributeError)"
proof (induction ls arbitrary: k m w)
  case Nil
  then show ?case by simp
next
  case (Cons l ls)
  then show ?case by (cases l) simp_all
qed

lemma load_lines_eq:
  "load_lines k ls (data, out) =
     (data @ loaded_values ls, out @ map Warning (invalid_from k ls))"
proof (induction ls arbitrary: k data out)
  case Nil
  then show ?case by simp
next
  case (Cons l ls)
  then show ?case by (cases l) simp_all
qed

lemma first_seen_snoc:
  "first_seen (xs @ [x]) = (if x \<in> set xs then first_seen xs else first_seen xs @ [x])"
  by (simp add: first_seen_def)

lemma set_first_seen [simp]: "set (first_seen xs) = set xs"
  by (simp add: first_seen_def)

lemma distinct_first_seen [simp]: "distinct (first_seen xs)"
  by (simp add: first_seen_def)

lemma append_to_map_new:
  "k \<notin> set ks \<Longrightarrow>
   append_to k e (map (\<lambda>k'. (k', f k')) ks) = map (\<lambda>k'. (k', f k')) ks @ [(k, [e])]"
  by (induction ks) auto

lemma append_to_map_old:
  "k \<in> set ks \<Longrightarrow> distinct ks \<Longrightarrow>
   append_to k e (map (\<lambda>k'. (k', f k')) ks) =
     map (\<lambda>k'. (k', if k' = k then f k' @ [e] else f k')) ks"
  by (induction ks) (auto simp: append_to_map_new)

lemma grouped_snoc: "grouped (ps @ [p]) = file_step (grouped ps) p"
proof (cases "key_of p \<in> set (map key_of ps)")
  case True
  then show ?thesis
    by (auto simp: grouped_def file_step_def first_seen_snoc append_to_map_old)
next
  case False
  then have "\<forall>q \<in> set ps. key_of q \<noteq> key_of p"
    by (metis image_eqI set_map)
  then have "filter (\<lambda>q. key_of q = key_of p) ps = []"
    by (simp add: filter_empty_conv)
  with False show ?thesis
    by (auto simp: grouped_def file_step_def first_seen_snoc append_to_map_new)
qed

lemma grouped_Nil: "grouped [] = []"
  by (simp add: grouped_def first_seen_def)

lemma foldl_file_step: "foldl file_step [] ps = grouped ps"
  by (induction ps rule: rev_induct) (simp_all add: grouped_snoc grouped_Nil)

lemma conversations_by_session_eq:
  "objects_only ls \<Longrightarrow>
   conversations_by_session ls =
     map (\<lambda>k. (k, map snd (filed_under ls k))) (session_keys ls)"
  by (simp add: conversations_by_session_def group_lines_fold foldl_file_step grouped_def
        filed_under_def session_keys_def valid_entries_def)

lemma warned_lines_eq: "objects_only ls \<Longrightarrow> warned_lines ls = skipped_lines ls"
  by (simp add: warned_lines_def group_lines_fold skipped_lines_def)

lemma entries_append_to:
  "(\<Sum>g \<leftarrow> append_to k e m. length (snd g)) = Suc (\<Sum>g \<leftarrow> m. length (snd g))"
  by (induction m) auto

lemma entries_foldl_file_step:
  "(\<Sum>g \<leftarrow> foldl file_step m ps. length (snd g)) = (\<Sum>g \<leftarrow> m. length (snd g)) + length ps"
  by (induction ps arbitrary: m) (simp_all add: file_step_def entries_append_to)

lemma entries_conversations_by_session:
  "objects_only ls \<Longrightarrow>
   (\<Sum>g \<leftarrow> conversations_by_session ls. length (snd g)) = length (valid_entries ls)"
  by (simp add: conversations_by_session_def group_lines_fold entries_foldl_file_step
        valid_entries_def)

lemma process_jsonl_file_objects_only:
  assumes "process_jsonl_file E p ls convs = (convs', None)"
  shows "objects_only ls"
  using assms group_lines_error [of 1 ls "[]" "[]"]
  by (auto simp: process_jsonl_file_def split: option.splits if_splits)

lemma process_jsonl_file_aborts:
  assumes "\<not> objects_only ls"
  shows "process_jsonl_file E p ls convs = (convs, Some AttributeError)"
  using assms group_lines_error [of 1 ls "[]" "[]"]
  by (simp add: process_jsonl_file_def)

lemma process_sessions_result:
  "process_sessions E p groups convs = (convs', None) \<Longrightarrow>
     \<exists>new. convs' = convs @ new
       \<and> list_all2 (\<lambda>c g. conv_id c = fst g
            \<and> list_all2 from_entry (sort_key timestamp_key (snd g)) (messages c)) new groups"
proof (induction groups arbitrary: convs)
  case Nil
  then show ?case by simp
next
  case (Cons g groups)
  obtain k es where g: "g = (k, es)" by (cases g)
  from Cons.prems g obtain convs1 where
    s1: "process_session_entries E es k p convs = Inr convs1"
    and s2: "process_sessions E p groups convs1 = (convs', None)"
    by (auto split: sum.splits)
  from process_session_entries_result [OF s1] obtain c where
    c: "convs1 = convs @ [c]" "conv_id c = k"
       "list_all2 from_entry (sort_key timestamp_key es) (messages c)"
    by blast
  from Cons.IH [OF s2] obtain new where
    n: "convs' = convs1 @ new"
       "list_all2 (\<lambda>c g. conv_id c = fst g
            \<and> list_all2 from_entry (sort_key timestamp_key (snd g)) (messages c)) new groups"
    by blast
  show ?case
  proof (intro exI [of _ "c # new"] conjI)
    show "convs' = convs @ c # new" using c n by simp
  qed (use c n g in simp_all)
qed

lemma process_jsonl_file_result:
  assumes "process_jsonl_file E p ls convs = (convs', None)"
  shows "\<exists>new. convs' = convs @ new \<and> one_per_session ls new"
proof -
  have oo: "objects_only ls" by (rule process_jsonl_file_objects_only [OF assms])
  then have "snd (group_lines 1 ls ([], [])) = None"
    by (simp add: group_lines_error)
  with assms have "process_sessions E p (conversations_by_session ls) convs = (convs', None)"
    by (simp add: process_jsonl_file_def)
  from process_sessions_result [OF this]
  obtain new where
    n: "convs' = convs @ new"
       "list_all2 (\<lambda>c g. conv_id c = fst g
            \<and> list_all2 from_entry (sort_key timestamp_key (snd g)) (messages c))
          new (conversations_by_session ls)"
    by blast
  from n(2) have
    "list_all2 (\<lambda>c k. conv_id c = k
        \<and> list_all2 from_entry (sort_key timestamp_key (map snd (filed_under ls k))) (messages c))
       new (session_keys ls)"
    by (simp add: conversations_by_session_eq [OF oo] list_all2_map2)
  then have "one_per_session ls new"
    unfolding one_per_session_def
    by (auto simp: session_keys_def list_all2_conv_all_nth intro!: nth_equalityI)
  with n(1) show ?thesis by blast
qed

subsection \<open>Line numbers as decimal digits\<close>

lemma digits_value_str_nat: "digits_value (str_nat n) = n"
proof (induction n rule: str_nat.induct)
  case (1 n)
  show ?case
  proof (cases "n < 10")
    case True
    then show ?thesis
      by (subst str_nat.simps) (simp add: digits_value_def)
  next
    case False
    have "n mod 10 < 10" by simp
    then have d: "of_char (char_of (48 + n mod 10) :: char) = 48 + n mod 10"
      by (simp add: of_char_of)
    from False have "digits_value (str_nat n) = 10 * digits_value (str_nat (n div 10)) + n mod 10"
      by (subst str_nat.simps) (simp add: digits_value_def d)
    with 1 False show ?thesis by simp
  qed
qed

lemma str_nat_inj: "str_nat m = str_nat n \<Longrightarrow> m = n"
  by (metis digits_value_str_nat)

lemma synthetic_key_inj:
  "''session_'' @ str_nat m = ''session_'' @ str_nat n \<longleftrightarrow> m = n"
  using str_nat_inj by auto

section \<open>Token derivation\<close>

text \<open>
  C1, as the code has it. Every message of a conversation built by
  \<^verbatim>\<open>process_session_entries\<close> comes from one entry of the session, taken in the sorted
  order, and its tokens follow the token rule: the sum of \<^verbatim>\<open>input_tokens\<close> and
  \<^verbatim>\<open>output_tokens\<close> (a missing one counts 0) only for an assistant entry whose usage block
  is not empty and whose sum is not zero; for every other entry, whatever its role and
  its usage block, the estimate: the length of the content as a string divided by 4,
  rounded down, and 0 for an empty content.
\<close>

theorem session_tokens_follow_rule:
  assumes "process_session_entries E entries session_id p convs = Inr convs'"
  shows "\<exists>c. convs' = convs @ [c] \<and>
             list_all2 (token_rule E) (sort_key timestamp_key entries) (messages c)"
  using process_session_entries_result [OF assms] by blast

theorem session_tokens_follow_rule_witness:
  "\<not> isl (process_session_entries (example_env 0) [example_assistant, example_user] ''a'' ''log.jsonl'' [])
   \<and> (\<exists>c. projr (process_session_entries (example_env 0) [example_assistant, example_user]
                ''a'' ''log.jsonl'' []) = [] @ [c]
          \<and> list_all2 (token_rule (example_env 0))
               (sort_key timestamp_key [example_assistant, example_user]) (messages c)
          \<and> map tokens (messages c) = [0, 5])"
proof -
  have run: "\<not> isl (process_session_entries (example_env 0) [example_assistant, example_user]
                ''a'' ''log.jsonl'' [])"
    by code_simp
  then have "process_session_entries (example_env 0) [example_assistant, example_user]
                ''a'' ''log.jsonl'' [] =
             Inr (projr (process_session_entries (example_env 0) [example_assistant, example_user]
                ''a'' ''log.jsonl'' []))"
    by simp
  from session_tokens_follow_rule [OF this] obtain c where
    c: "projr (process_session_entries (example_env 0) [example_assistant, example_user]
                ''a'' ''log.jsonl'' []) = [] @ [c]"
       "list_all2 (token_rule (example_env 0))
               (sort_key timestamp_key [example_assistant, example_user]) (messages c)"
    by blast
  have "map (\<lambda>c. map tokens (messages c))
          (projr (process_session_entries (example_env 0) [example_assistant, example_user]
                ''a'' ''log.jsonl'' [])) = [[0, 5]]"
    by code_simp
  with c have tok: "map tokens (messages c) = [0, 5]" by simp
  show ?thesis
  proof (intro conjI exI [of _ c])
    show "\<not> isl (process_session_entries (example_env 0) [example_assistant, example_user]
                ''a'' ''log.jsonl'' [])" by (rule run)
  qed (use c tok in simp_all)
qed

text \<open>
  C1 as stated fails: a user entry whose message has the usage block
  \<^verbatim>\<open>{"input_tokens": 3, "output_tokens": 2}\<close> and the content \<^verbatim>\<open>"hi"\<close> gets 0 tokens,
  the estimate for two characters, not 5.
\<close>

theorem user_usage_counterexample:
  "usage_truthy (m_usage (message_of user_with_usage))
   \<and> usage_sum user_with_usage = 5
   \<and> \<not> isl (process_session_entries (example_env 0) [user_with_usage] ''a'' ''log.jsonl'' [])
   \<and> map (map tokens \<circ> messages)
         (projr (process_session_entries (example_env 0) [user_with_usage] ''a'' ''log.jsonl'' []))
       = [[0]]"
  by code_simp

section \<open>Status of a conversation\<close>

text \<open>
  What the classifier does. Without a last activity, or with one that does not parse, the
  status is \<^verbatim>\<open>unknown\<close>. When the last activity is less than a day before the clock's
  reading, the status follows the whole seconds between them: under 300 \<^verbatim>\<open>active\<close>,
  under 3600 \<^verbatim>\<open>recent\<close>, else \<^verbatim>\<open>inactive\<close>. Whole days do not count: moving the clock
  by any number of days leaves the status as it was.
\<close>

lemma status_unknown:
  assumes "\<not> nonempty (last_activity c)
           \<or> fromisoformat E (replace CHR ''Z'' ''+00:00'' (the (last_activity c))) = None"
  shows "determine_conversation_status E clock c = ''unknown''"
  using assms by (auto simp: determine_conversation_status_def)

lemma seconds_whole_days: "seconds (td + 86400000000 * k) = seconds td"
proof -
  have "(td + 86400000000 * k) div 1000000 = td div 1000000 + 86400 * k"
    by (simp add: div_plus_div_distrib_dvd_right)
  then show ?thesis by (simp add: seconds_def)
qed

lemma status_ignores_whole_days:
  "determine_conversation_status E (clock + 86400000000 * k) c
     = determine_conversation_status E clock c"
proof (cases "fromisoformat E (replace CHR ''Z'' ''+00:00'' (the (last_activity c)))")
  case None
  then show ?thesis by (simp add: determine_conversation_status_def)
next
  case (Some t)
  show ?thesis
  proof (cases "utcoffset t")
    case None
    with Some show ?thesis by (simp add: determine_conversation_status_def sub_now_def)
  next
    case (Some off)
    have "clock + 86400000000 * k - (wall_us t - off)
            = clock - (wall_us t - off) + 86400000000 * k"
      by simp
    then have "seconds (clock + 86400000000 * k - (wall_us t - off))
            = seconds (clock - (wall_us t - off))"
      by (simp only: seconds_whole_days)
    with Some \<open>fromisoformat E (replace CHR ''Z'' ''+00:00'' (the (last_activity c))) = Some t\<close>
    show ?thesis by (simp add: determine_conversation_status_def sub_now_def)
  qed
qed

lemma status_within_a_day:
  assumes "nonempty (last_activity c)"
    and "fromisoformat E (replace CHR ''Z'' ''+00:00'' (the (last_activity c))) = Some t"
    and "utcoffset t = Some off"
    and "0 \<le> clock - (wall_us t - off)" and "clock - (wall_us t - off) < 86400000000"
  shows "determine_conversation_status E clock c =
     (if total_seconds_floor (clock - (wall_us t - off)) < 300 then ''active''
      else if total_seconds_floor (clock - (wall_us t - off)) < 3600 then ''recent''
      else ''inactive'')"
proof -
  let ?td = "clock - (wall_us t - off)"
  from assms(4,5) have "0 \<le> ?td div 1000000" "?td div 1000000 < 86400"
    by simp_all
  then have "seconds ?td = total_seconds_floor ?td"
    by (simp add: seconds_def total_seconds_floor_def)
  with assms(1-3) show ?thesis
    by (simp add: determine_conversation_status_def sub_now_def)
qed

text \<open>
  C2 says that a conversation whose last activity is more than an hour before the current
  time is \<^verbatim>\<open>inactive\<close>. The code does not do so when whole days lie between them: with the
  last activity one day and two minutes (86520 seconds) before the clock's reading, the
  status is \<^verbatim>\<open>active\<close>, because \<^verbatim>\<open>time_diff.seconds\<close> is 120.
\<close>

theorem status_after_a_day:
  "utc 2024 1 2 0 2 0 - utc 2024 1 1 0 0 0 = 86520 * 1000000
   \<and> determine_conversation_status (example_env (utc 2024 1 2 0 2 0)) (utc 2024 1 2 0 2 0)
        ((new_conversation ''a'' ''log.jsonl'')\<lparr>last_activity := Some ''2024-01-01T00:00:00Z''\<rparr>)
      = ''active''"
  by code_simp

section \<open>One entry for each line that parses\<close>

text \<open>
  What the two loops do with the lines of a file. \<^verbatim>\<open>load_jsonl\<close> returns what the lines
  that parse hold, one value for each, in the order of the lines, and prints one warning
  for each line that is not blank and does not parse; when reading fails it returns
  \<^verbatim>\<open>None\<close>, after the warnings for the lines read until then. In \<^verbatim>\<open>process_jsonl_file\<close>,
  when every line that parses holds an object, the lists of the dict hold together as many
  entries as there are such lines, each key has the entries of that key in the order of
  their lines, and a warning is printed for every line that is blank or does not parse.
  When some line holds a value that is not an object, the function ends with
  AttributeError and \<^verbatim>\<open>self.conversations\<close> is as it was.
\<close>

lemma load_jsonl_lines:
  "load_jsonl (Lines ls) = (Some (loaded_values ls), map Warning (invalid_lines ls))"
  by (simp add: load_jsonl_def load_lines_eq invalid_lines_def)

lemma load_jsonl_read_error:
  "load_jsonl (ReadError ls) = (None, map Warning (invalid_lines ls) @ [ErrorReading])"
  by (simp add: load_jsonl_def load_lines_eq invalid_lines_def)

lemma process_jsonl_file_lines:
  assumes "objects_only ls"
  shows "(\<Sum>g \<leftarrow> conversations_by_session ls. length (snd g)) = length (valid_entries ls)
         \<and> conversations_by_session ls
              = map (\<lambda>k. (k, map snd (filed_under ls k))) (session_keys ls)
         \<and> warned_lines ls = skipped_lines ls"
proof (intro conjI)
  show "(\<Sum>g \<leftarrow> conversations_by_session ls. length (snd g)) = length (valid_entries ls)"
    by (rule entries_conversations_by_session [OF assms])
  show "conversations_by_session ls
          = map (\<lambda>k. (k, map snd (filed_under ls k))) (session_keys ls)"
    by (rule conversations_by_session_eq [OF assms])
  show "warned_lines ls = skipped_lines ls"
    by (rule warned_lines_eq [OF assms])
qed

text \<open>
  C3 says that every line of valid JSON gives one entry and that no line ends the file.
  \<^verbatim>\<open>load_jsonl\<close> does so. \<^verbatim>\<open>process_jsonl_file\<close> does not: in a log of three lines whose
  second line is the number 5, \<^verbatim>\<open>entry.get\<close> raises AttributeError on that line, outside
  the \<^verbatim>\<open>except json.JSONDecodeError\<close> of the loop, and the two entries of the other lines
  are lost with the file: no conversation is built.
\<close>

theorem number_line_loses_the_file:
  "load_jsonl (Lines log_with_number)
     = (Some [Entry example_user, Other (JInt 5), Entry example_assistant], [])
   \<and> process_jsonl_file (example_env 0) ''one.jsonl'' log_with_number []
       = ([], Some AttributeError)
   \<and> load_conversation_data (example_env 0)
         \<lparr>json_files = [], jsonl_files = [(one_jsonl, Some log_with_number)]\<rparr> []
       = []"
  by code_simp

section \<open>Sessions and conversations\<close>

text \<open>
  C4, as the code has it: within one line-delimited file. When the file is processed
  without an error, its conversations are appended to those of the files before it, one
  for each session key of the file, holding the messages of the entries filed under the
  key. Two entries of the file with the same \<^verbatim>\<open>sessionId\<close> are filed under that id, so
  they are in the one conversation named by it; two entries with different \<^verbatim>\<open>sessionId\<close>
  values are filed under no common key.
\<close>

theorem same_session_same_conversation:
  assumes "process_jsonl_file E p ls convs = (convs', None)"
    and "(m, e1) \<in> set (valid_entries ls)" and "(n, e2) \<in> set (valid_entries ls)"
    and "e_sessionId e1 = Some s1" and "e_sessionId e2 = Some s2"
  shows "\<exists>new. convs' = convs @ new \<and> one_per_session ls new
           \<and> s1 \<in> set (map conv_id new) \<and> s2 \<in> set (map conv_id new)
           \<and> (s1 = s2 \<longrightarrow>
                 (m, e1) \<in> set (filed_under ls s1) \<and> (n, e2) \<in> set (filed_under ls s1))
           \<and> (s1 \<noteq> s2 \<longrightarrow>
                 (\<forall>k. \<not> ((m, e1) \<in> set (filed_under ls k) \<and> (n, e2) \<in> set (filed_under ls k))))"
proof -
  from process_jsonl_file_result [OF assms(1)] obtain new where
    new: "convs' = convs @ new" "one_per_session ls new" by blast
  have keys: "key_of (m, e1) = s1" "key_of (n, e2) = s2"
    using assms(4,5) by (simp_all add: key_of_def session_key_def)
  then have "s1 \<in> set (session_keys ls)" "s2 \<in> set (session_keys ls)"
    using assms(2,3) by (force simp: session_keys_def)+
  then have "s1 \<in> set (map conv_id new)" "s2 \<in> set (map conv_id new)"
    using new(2) by (simp_all add: one_per_session_def)
  with new keys show ?thesis
    using assms(2,3) by (auto simp: filed_under_def)
qed

theorem same_session_same_conversation_witness:
  "snd (process_jsonl_file (example_env 0) ''log.jsonl'' example_log []) = None
   \<and> (1, example_user) \<in> set (valid_entries example_log)
   \<and> (5, example_assistant) \<in> set (valid_entries example_log)
   \<and> (3, entry_b) \<in> set (valid_entries example_log)
   \<and> (\<exists>new. fst (process_jsonl_file (example_env 0) ''log.jsonl'' example_log []) = [] @ new
         \<and> one_per_session example_log new \<and> ''a'' \<in> set (map conv_id new))
   \<and> (1, example_user) \<in> set (filed_under example_log ''a'')
   \<and> (5, example_assistant) \<in> set (filed_under example_log ''a'')
   \<and> (\<forall>k. \<not> ((1, example_user) \<in> set (filed_under example_log k)
              \<and> (3, entry_b) \<in> set (filed_under example_log k)))"
proof -
  have sn: "snd (process_jsonl_file (example_env 0) ''log.jsonl'' example_log []) = None"
    by code_simp
  then have run: "process_jsonl_file (example_env 0) ''log.jsonl'' example_log []
      = (fst (process_jsonl_file (example_env 0) ''log.jsonl'' example_log []), None)"
    by (simp add: prod_eq_iff)
  have v1: "(1, example_user) \<in> set (valid_entries example_log)" by code_simp
  have v5: "(5, example_assistant) \<in> set (valid_entries example_log)" by code_simp
  have v3: "(3, entry_b) \<in> set (valid_entries example_log)" by code_simp
  have ia: "e_sessionId example_user = Some ''a''" "e_sessionId example_assistant = Some ''a''"
    by (simp_all add: example_user_def example_assistant_def)
  have ib: "e_sessionId entry_b = Some ''b''"
    by (simp add: entry_b_def)
  from same_session_same_conversation [OF run v1 v5 ia]
       same_session_same_conversation [OF run v1 v3 ia(1) ib]
  show ?thesis using sn v1 v5 v3 by auto
qed

text \<open>
  C4 as stated fails across files: two files, each with one entry of session \<^verbatim>\<open>a\<close>, give
  two conversations named \<^verbatim>\<open>a\<close>, one for each file, with one message each.
\<close>

theorem same_session_two_files_counterexample:
  "e_sessionId example_user = e_sessionId example_assistant
   \<and> map conv_id
         (load_conversation_data (example_env 0)
            \<lparr>json_files = [],
             jsonl_files = [(one_jsonl, Some [Parsed example_user]),
                            (two_jsonl, Some [Parsed example_assistant])]\<rparr> [])
       = [''a'', ''a'']
   \<and> map file_path
         (load_conversation_data (example_env 0)
            \<lparr>json_files = [],
             jsonl_files = [(one_jsonl, Some [Parsed example_user]),
                            (two_jsonl, Some [Parsed example_assistant])]\<rparr> [])
       = [''one.jsonl'', ''two.jsonl'']
   \<and> map (length \<circ> messages)
         (load_conversation_data (example_env 0)
            \<lparr>json_files = [],
             jsonl_files = [(one_jsonl, Some [Parsed example_user]),
                            (two_jsonl, Some [Parsed example_assistant])]\<rparr> [])
       = [1, 1]"
  by code_simp

section \<open>The content of an assistant message\<close>









section \<open>The first and the last activity of a conversation\<close>

lemma stamps_update_timestamps:
  "(created_at (update_timestamps c ts), last_activity (update_timestamps c ts))
     = stamp_step (created_at c, last_activity c) ts"
  by (simp add: update_timestamps_def stamp_step_def)

lemma stamps_process_entry:
  assumes "process_entry E c e = Inr c'"
  shows "(created_at c', last_activity c') = stamp_step (created_at c, last_activity c) (e_timestamp e)"
  using assms
  by (auto simp: process_entry_def append_message_def Let_def update_timestamps_def stamp_step_def
      split: if_splits sum.splits)

lemma stamps_process_entries:
  "process_entries E c es = Inr c' \<Longrightarrow>
   (created_at c', last_activity c')
     = foldl stamp_step (created_at c, last_activity c) (map e_timestamp es)"
proof (induction es arbitrary: c)
  case Nil
  then show ?case by simp
next
  case (Cons e es)
  from Cons.prems obtain c1 where s1: "process_entry E c e = Inr c1"
    and s2: "process_entries E c1 es = Inr c'"
    by (auto split: sum.splits)
  from Cons.IH [OF s2] stamps_process_entry [OF s1] show ?case by simp
qed

lemma foldl_stamp_step:
  "foldl stamp_step (None, None) tss =
     (if filter nonempty tss = [] then (None, None)
      else (hd (filter nonempty tss), last (filter nonempty tss)))"
proof (induction tss rule: rev_induct)
  case Nil
  then show ?case by simp
next
  case (snoc ts tss)
  show ?case
  proof (cases "filter nonempty tss = []")
    case True
    with snoc show ?thesis by (simp add: stamp_step_def)
  next
    case False
    from hd_in_set [OF False] have "nonempty (hd (filter nonempty tss))" by simp
    with snoc False show ?thesis by (simp add: stamp_step_def)
  qed
qed


lemma sorted_hd_Min:
  fixes xs :: "'a::linorder list"
  shows "sorted xs \<Longrightarrow> xs \<noteq> [] \<Longrightarrow> hd xs = Min (set xs)"
  by (cases xs) (auto intro!: Min_eqI [symmetric])

lemma sorted_last_Max:
  fixes xs :: "'a::linorder list"
  shows "sorted xs \<Longrightarrow> xs \<noteq> [] \<Longrightarrow> last xs = Max (set xs)"
proof (induction xs rule: rev_induct)
  case Nil
  then show ?case by simp
next
  case (snoc x xs)
  then show ?case by (auto simp: sorted_append intro!: Max_eqI [symmetric])
qed

lemma stamps_sorted:
  "sorted (filter (\<lambda>t. t \<noteq> []) (map timestamp_key (sort_key timestamp_key entries)))"
  using sorted_filter [of "\<lambda>x. x" "map timestamp_key (sort_key timestamp_key entries)" "\<lambda>t. t \<noteq> []"]
  by (simp add: sorted_sort_key)

lemma stamp_of_e_timestamp: "stamp_of (e_timestamp e) = timestamp_key e"
  by (simp add: stamp_of_def timestamp_key_def)

lemma filter_nonempty_stamps:
  "map stamp_of (filter nonempty tss) = filter (\<lambda>t. t \<noteq> []) (map stamp_of tss)"
  by (induction tss) (auto simp: stamp_of_def nonempty_def split: option.splits)

lemma Some_stamp_of: "nonempty ts \<Longrightarrow> ts = Some (stamp_of ts)"
  by (cases ts) (simp_all add: stamp_of_def)

text \<open>
  C6, as the code has it. A conversation built by \<^verbatim>\<open>process_session_entries\<close> has for
  \<^verbatim>\<open>created_at\<close> the least and for \<^verbatim>\<open>last_activity\<close> the greatest of the timestamps of its
  messages, counting only the timestamps that are present and not empty, and comparing
  them as strings, character by character: the entries are sorted by the timestamp
  string and never parsed. When no message has such a timestamp both fields are \<^verbatim>\<open>None\<close>.
\<close>

theorem span_of_message_timestamps:
  assumes "process_session_entries E entries session_id p convs = Inr convs'"
  shows "\<exists>c. convs' = convs @ [c]
           \<and> (if message_stamps c = [] then created_at c = None \<and> last_activity c = None
               else created_at c = Some (Min (set (message_stamps c)))
                    \<and> last_activity c = Some (Max (set (message_stamps c))))"
proof -
  let ?es = "sort_key timestamp_key entries"
  from assms obtain c0 where
    c0: "process_entries E (new_conversation session_id p) ?es = Inr c0"
    and res: "convs' = convs @
       [c0\<lparr>status := determine_conversation_status E (now E (length convs)) c0,
           project_context := extract_project_context E
             (c0\<lparr>status := determine_conversation_status E (now E (length convs)) c0\<rparr>)\<rparr>]"
    by (auto simp: process_session_entries_def Let_def split: sum.splits)
  let ?c = "c0\<lparr>status := determine_conversation_status E (now E (length convs)) c0,
           project_context := extract_project_context E
             (c0\<lparr>status := determine_conversation_status E (now E (length convs)) c0\<rparr>)\<rparr>"
  let ?T = "filter nonempty (map e_timestamp ?es)"
  from process_entries_messages [OF c0] have "list_all2 from_entry ?es (messages c0)"
    by (simp add: new_conversation_def)
  then have "map timestamp (messages c0) = map e_timestamp ?es"
    by (induction rule: list_all2_induct) (simp_all add: from_entry_def)
  then have "map (\<lambda>m. stamp_of (timestamp m)) (messages c0) = map timestamp_key ?es"
    by (metis (no_types, lifting) map_map comp_def stamp_of_e_timestamp map_eq_conv)
  then have ms: "message_stamps ?c = filter (\<lambda>t. t \<noteq> []) (map timestamp_key ?es)"
    by (simp add: message_stamps_def)
  have T: "map stamp_of ?T = message_stamps ?c"
    by (simp add: ms filter_nonempty_stamps stamp_of_e_timestamp cong: map_cong)
  have sorted: "sorted (message_stamps ?c)"
    unfolding ms by (rule stamps_sorted)
  from stamps_process_entries [OF c0] have
    cl: "(created_at ?c, last_activity ?c) =
      (if ?T = [] then (None, None) else (hd ?T, last ?T))"
    by (simp add: new_conversation_def foldl_stamp_step)
  have "if message_stamps ?c = [] then created_at ?c = None \<and> last_activity ?c = None
        else created_at ?c = Some (Min (set (message_stamps ?c)))
             \<and> last_activity ?c = Some (Max (set (message_stamps ?c)))"
  proof (cases "?T = []")
    case True
    with T cl show ?thesis by simp
  next
    case False
    then have ne: "message_stamps ?c \<noteq> []" using T by (metis map_is_Nil_conv)
    from False have "nonempty (hd ?T)" "nonempty (last ?T)"
      using hd_in_set [OF False] last_in_set [OF False] by simp_all
    then have "hd ?T = Some (stamp_of (hd ?T))" "last ?T = Some (stamp_of (last ?T))"
      by (simp_all add: Some_stamp_of [symmetric])
    moreover have "stamp_of (hd ?T) = hd (message_stamps ?c)"
      using False T by (metis hd_map)
    moreover have "stamp_of (last ?T) = last (message_stamps ?c)"
      using False T by (metis last_map)
    ultimately have "created_at ?c = Some (hd (message_stamps ?c))"
      "last_activity ?c = Some (last (message_stamps ?c))"
      using cl False by simp_all
    with ne sorted show ?thesis
      by (simp add: sorted_hd_Min sorted_last_Max)
  qed
  with res show ?thesis by blast
qed

theorem span_of_message_timestamps_witness:
  "\<not> isl (process_session_entries (example_env 0) [example_assistant, example_user]
            ''a'' ''log.jsonl'' [])
   \<and> (\<exists>c. projr (process_session_entries (example_env 0) [example_assistant, example_user]
                ''a'' ''log.jsonl'' []) = [] @ [c]
          \<and> message_stamps c = [''2024-01-01T00:00:00Z'', ''2024-01-01T00:01:00Z'']
          \<and> created_at c = Some ''2024-01-01T00:00:00Z''
          \<and> last_activity c = Some ''2024-01-01T00:01:00Z'')"
proof -
  let ?run = "process_session_entries (example_env 0) [example_assistant, example_user]
                ''a'' ''log.jsonl'' []"
  have run: "\<not> isl ?run" by code_simp
  then have "?run = Inr (projr ?run)" by simp
  from span_of_message_timestamps [OF this] obtain c where
    c: "projr ?run = [] @ [c]"
       "if message_stamps c = [] then created_at c = None \<and> last_activity c = None
        else created_at c = Some (Min (set (message_stamps c)))
             \<and> last_activity c = Some (Max (set (message_stamps c)))"
    by blast
  have "map message_stamps (projr ?run)
          = [[''2024-01-01T00:00:00Z'', ''2024-01-01T00:01:00Z'']]"
    by code_simp
  with c(1) have ms: "message_stamps c = [''2024-01-01T00:00:00Z'', ''2024-01-01T00:01:00Z'']"
    by simp
  have lo: "Min (set [''2024-01-01T00:00:00Z'', ''2024-01-01T00:01:00Z''])
              = ''2024-01-01T00:00:00Z''"
    by code_simp
  have hi: "Max (set [''2024-01-01T00:00:00Z'', ''2024-01-01T00:01:00Z''])
              = ''2024-01-01T00:01:00Z''"
    by code_simp
  from c(2) have "created_at c = Some ''2024-01-01T00:00:00Z''"
    "last_activity c = Some ''2024-01-01T00:01:00Z''"
    unfolding ms lo hi by simp_all
  with run c(1) ms show ?thesis by blast
qed

text \<open>
  C6 as stated, with the parsed timestamps, fails: of two messages at 00:00:00 and at
  00:00:00.500, the later one sorts first as a string (\<^verbatim>\<open>.\<close> comes before \<^verbatim>\<open>Z\<close>), so
  \<^verbatim>\<open>created_at\<close> is the later instant and \<^verbatim>\<open>last_activity\<close> the earlier one.
\<close>

theorem parsed_span_counterexample:
  "\<not> isl (process_session_entries (example_env 0) [whole_second, half_second] ''a'' ''log.jsonl'' [])
   \<and> map (map timestamp \<circ> messages)
         (projr (process_session_entries (example_env 0) [whole_second, half_second]
                   ''a'' ''log.jsonl'' []))
       = [[Some ''2024-01-01T00:00:00.500Z'', Some ''2024-01-01T00:00:00Z'']]
   \<and> map created_at
         (projr (process_session_entries (example_env 0) [whole_second, half_second]
                   ''a'' ''log.jsonl'' []))
       = [Some ''2024-01-01T00:00:00.500Z'']
   \<and> map last_activity
         (projr (process_session_entries (example_env 0) [whole_second, half_second]
                   ''a'' ''log.jsonl'' []))
       = [Some ''2024-01-01T00:00:00Z'']
   \<and> parsed (example_env 0) ''2024-01-01T00:00:00Z'' = Some (utc 2024 1 1 0 0 0)
   \<and> parsed (example_env 0) ''2024-01-01T00:00:00.500Z'' = Some (utc 2024 1 1 0 0 0 + 500000)"
  by code_simp

section \<open>The model of a conversation\<close>

lemma last_or_simps [simp]:
  "last_or d [] = d" "last_or d (x # xs) = last_or x xs"
  by (simp_all add: last_or_def)

lemma last_or_append: "last_or d (xs @ ys) = last_or (last_or d xs) ys"
  by (induction xs arbitrary: d) simp_all

lemma model_update_timestamps [simp]: "model (update_timestamps c ts) = model c"
  by (simp add: update_timestamps_def)

lemma model_append_message [simp]: "model (append_message E c m) = model c"
  by (simp add: append_message_def Let_def)

lemma model_process_entry:
  assumes "process_entry E c e = Inr c'"
  shows "model c' = last_or (model c) (assistant_models [e])"
  using assms
  by (auto simp: process_entry_def Let_def assistant_models_def split: if_splits sum.splits)

lemma assistant_models_Cons:
  "assistant_models (e # es) = assistant_models [e] @ assistant_models es"
  by (simp add: assistant_models_def)

lemma model_process_entries:
  "process_entries E c es = Inr c' \<Longrightarrow> model c' = last_or (model c) (assistant_models es)"
proof (induction es arbitrary: c)
  case Nil
  then show ?case by (simp add: assistant_models_def)
next
  case (Cons e es)
  from Cons.prems obtain c1 where s1: "process_entry E c e = Inr c1"
    and s2: "process_entries E c1 es = Inr c'"
    by (auto split: sum.splits)
  from Cons.IH [OF s2] model_process_entry [OF s1] show ?case
    by (subst assistant_models_Cons) (simp add: last_or_append)
qed

lemma model_process_msg:
  "model (process_msg E c x) = last_or (model c) (file_models [x])"
  by (simp add: process_msg_def file_models_def List.map_filter_simps Let_def
      split: item.splits option.splits)

lemma file_models_snoc: "file_models (xs @ [x]) = file_models xs @ file_models [x]"
  by (simp add: file_models_def List.map_filter_def)

lemma model_foldl_process_msg:
  "model (foldl (process_msg E) c xs) = last_or (model c) (file_models xs)"
proof (induction xs rule: rev_induct)
  case Nil
  then show ?case by (simp add: file_models_def List.map_filter_simps)
next
  case (snoc x xs)
  then show ?case by (simp add: model_process_msg file_models_snoc last_or_append)
qed

text \<open>
  What the two paths do. The model of a conversation built by \<^verbatim>\<open>process_session_entries\<close>
  is the last model name that is not empty among its entries of type \<^verbatim>\<open>assistant\<close>, taken
  in the sorted order, and \<^verbatim>\<open>unknown\<close> when there is none; entries of other types and
  empty names do not set it. \<^verbatim>\<open>process_conversation_file\<close> takes the model of the last
  message that has the key \<^verbatim>\<open>model\<close>, without a look at the role or the name.
\<close>

lemma session_model:
  assumes "process_session_entries E entries session_id p convs = Inr convs'"
  shows "\<exists>c. convs' = convs @ [c]
           \<and> model c = last_or ''unknown'' (assistant_models (sort_key timestamp_key entries))"
proof -
  from assms obtain c0 where
    c0: "process_entries E (new_conversation session_id p) (sort_key timestamp_key entries) = Inr c0"
    and res: "convs' = convs @
       [c0\<lparr>status := determine_conversation_status E (now E (length convs)) c0,
           project_context := extract_project_context E
             (c0\<lparr>status := determine_conversation_status E (now E (length convs)) c0\<rparr>)\<rparr>]"
    by (auto simp: process_session_entries_def Let_def split: sum.splits)
  from model_process_entries [OF c0] res show ?thesis
    by (simp add: new_conversation_def)
qed

lemma whole_file_model:
  "\<exists>c. process_conversation_file E data f convs = convs @ [c]
       \<and> model c = last_or ''unknown'' (file_models (messages_of data))"
  by (simp add: process_conversation_file_def Let_def model_foldl_process_msg new_conversation_def)

text \<open>
  C7 says that the model of a conversation is the last model name that is not empty among
  its assistant messages, and that other roles and empty names never set it. The
  whole-file path does not keep to it: for an assistant message with the model \<^verbatim>\<open>m1\<close>
  followed by a user message with the model \<^verbatim>\<open>""\<close>, the conversation ends with the empty
  string for its model. The line-delimited path, on the same exchange, keeps \<^verbatim>\<open>m1\<close>.
\<close>

theorem whole_file_loses_model_name:
  "map (map role \<circ> messages)
     (process_conversation_file (example_env 0) named_then_empty chat_json [])
     = [[''assistant'', ''user'']]
   \<and> map model (process_conversation_file (example_env 0) named_then_empty chat_json [])
       = [[]]
   \<and> \<not> isl (process_session_entries (example_env 0) [assistant_m1, user_empty_model]
              ''a'' ''log.jsonl'' [])
   \<and> map model
         (projr (process_session_entries (example_env 0) [assistant_m1, user_empty_model]
                   ''a'' ''log.jsonl'' []))
       = [''m1'']"
  by code_simp

section \<open>What changes after classification\<close>

lemma frame_clean_conversation [simp]: "frame (clean_conversation E c) = frame c"
  by (simp add: frame_def clean_conversation_def comp_def)

lemma conversations_analyze [simp]:
  "conversations (analyze_usage_patterns E self) = conversations self"
  by (simp add: analyze_usage_patterns_def Let_def)





section \<open>The aggregation and the clock\<close>

lemma analyze_usage_patterns_summary:
  "analyze_usage_patterns E self =
     (if conversations self = [] then self
      else self\<lparr>usage_stats := Some (summary E (conversations self))\<rparr>)"
  by (simp add: analyze_usage_patterns_def summary_def Let_def)

subsection \<open>The clock is read by the classifier only\<close>

lemma str_now [simp]: "str (E\<lparr>now := clock\<rparr>) = str E"
  by (rule ext) (simp add: str_def cong: json.case_cong)

lemma estimate_tokens_now [simp]: "estimate_tokens (E\<lparr>now := clock\<rparr>) = estimate_tokens E"
  by (rule ext) (simp add: estimate_tokens_def)

lemma collect_text_now [simp]:
  "collect_text (E\<lparr>now := clock\<rparr>) parts acc = collect_text E parts acc"
  by (induction parts arbitrary: acc) (simp_all split: json.splits)

lemma assistant_content_now [simp]:
  "assistant_content (E\<lparr>now := clock\<rparr>) = assistant_content E"
  by (rule ext) (simp add: assistant_content_def cong: json.case_cong)

lemma append_message_now [simp]:
  "append_message (E\<lparr>now := clock\<rparr>) = append_message E"
  by (intro ext) (simp add: append_message_def)

lemma process_entry_now [simp]:
  "process_entry (E\<lparr>now := clock\<rparr>) = process_entry E"
  by (intro ext) (simp add: process_entry_def Let_def cong: sum.case_cong if_cong)

lemma process_entries_now [simp]:
  "process_entries (E\<lparr>now := clock\<rparr>) c es = process_entries E c es"
  by (induction es arbitrary: c) (simp_all split: sum.splits)

lemma extract_project_context_now [simp]:
  "extract_project_context (E\<lparr>now := clock\<rparr>) = extract_project_context E"
  by (intro ext) (simp add: extract_project_context_def)

lemma extract_project_context_status [simp]:
  "extract_project_context E (c\<lparr>status := s\<rparr>) = extract_project_context E c"
  by (simp add: extract_project_context_def)

lemma process_msg_now [simp]: "process_msg (E\<lparr>now := clock\<rparr>) = process_msg E"
  by (intro ext) (simp add: process_msg_def Let_def split: item.splits)

lemma daily_step_now [simp]: "daily_step (E\<lparr>now := clock\<rparr>) = daily_step E"
  by (intro ext) (simp add: daily_step_def)

lemma summary_now [simp]: "summary (E\<lparr>now := clock\<rparr>) = summary E"
  by (intro ext) (simp add: summary_def)

subsection \<open>Two runs that differ in the clock\<close>

lemma erase_snoc:
  "map erase xs = map erase ys \<Longrightarrow> erase x = erase y \<Longrightarrow> map erase (xs @ [x]) = map erase (ys @ [y])"
  by simp

lemma process_session_entries_clock:
  assumes "map erase convs1 = map erase convs2"
  shows "(case process_session_entries (E\<lparr>now := clock\<rparr>) es k p convs1 of
            Inl err \<Rightarrow> process_session_entries E es k p convs2 = Inl err
          | Inr r1 \<Rightarrow> (\<exists>r2. process_session_entries E es k p convs2 = Inr r2
                          \<and> map erase r1 = map erase r2))"
  using assms
  by (auto simp: process_session_entries_def Let_def erase_def split: sum.splits)

lemma process_sessions_clock:
  "map erase convs1 = map erase convs2 \<Longrightarrow>
   map erase (fst (process_sessions (E\<lparr>now := clock\<rparr>) p groups convs1))
     = map erase (fst (process_sessions E p groups convs2))"
proof (induction groups arbitrary: convs1 convs2)
  case Nil
  then show ?case by simp
next
  case (Cons g groups)
  obtain k es where g: "g = (k, es)" by (cases g)
  show ?case
  proof (cases "process_session_entries (E\<lparr>now := clock\<rparr>) es k p convs1")
    case (Inl err)
    with process_session_entries_clock [OF Cons.prems, where E = E and clock = clock and es = es and k = k and p = p]
    have "process_session_entries E es k p convs2 = Inl err" by simp
    with Inl g Cons.prems show ?thesis by simp
  next
    case (Inr r1)
    with process_session_entries_clock [OF Cons.prems, where E = E and clock = clock and es = es and k = k and p = p]
    obtain r2 where r2: "process_session_entries E es k p convs2 = Inr r2"
      "map erase r1 = map erase r2" by auto
    with Inr g Cons.IH [OF r2(2)] show ?thesis by simp
  qed
qed

lemma process_conversation_file_clock:
  "map erase convs1 = map erase convs2 \<Longrightarrow>
   map erase (process_conversation_file (E\<lparr>now := clock\<rparr>) data p convs1)
     = map erase (process_conversation_file E data p convs2)"
  by (simp add: process_conversation_file_def Let_def erase_def)

lemma load_json_files_clock:
  "map erase convs1 = map erase convs2 \<Longrightarrow>
   map erase (foldl (load_json_file (E\<lparr>now := clock\<rparr>)) convs1 fs)
     = map erase (foldl (load_json_file E) convs2 fs)"
proof (induction fs arbitrary: convs1 convs2)
  case Nil
  then show ?case by simp
next
  case (Cons f fs)
  have "map erase (load_json_file (E\<lparr>now := clock\<rparr>) convs1 f)
          = map erase (load_json_file E convs2 f)"
    using Cons.prems
    by (cases "snd f") (simp_all add: load_json_file_def process_conversation_file_clock)
  from Cons.IH [OF this] show ?case by simp
qed

lemma load_jsonl_files_clock:
  "map erase convs1 = map erase convs2 \<Longrightarrow>
   map erase (foldl (load_jsonl_file (E\<lparr>now := clock\<rparr>)) convs1 fs)
     = map erase (foldl (load_jsonl_file E) convs2 fs)"
proof (induction fs arbitrary: convs1 convs2)
  case Nil
  then show ?case by simp
next
  case (Cons f fs)
  have "map erase (load_jsonl_file (E\<lparr>now := clock\<rparr>) convs1 f)
          = map erase (load_jsonl_file E convs2 f)"
    using Cons.prems
    by (cases "snd f")
       (simp_all add: load_jsonl_file_def process_jsonl_file_def process_sessions_clock
          split: option.splits)
  from Cons.IH [OF this] show ?case by simp
qed

lemma load_conversation_data_clock:
  "map erase (load_conversation_data (E\<lparr>now := clock\<rparr>) d [])
     = map erase (load_conversation_data E d [])"
  unfolding load_conversation_data_def
  by (rule load_jsonl_files_clock) (rule load_json_files_clock, simp)

subsection \<open>The statistics apart from the statuses\<close>

lemma field_erase:
  assumes "map erase cs1 = map erase cs2" and "\<And>c. f (erase c) = f c"
  shows "map f cs1 = map f cs2"
proof -
  have "map f cs1 = map f (map erase cs1)" using assms(2) by (simp add: comp_def)
  also have "\<dots> = map f (map erase cs2)" using assms(1) by simp
  also have "\<dots> = map f cs2" using assms(2) by (simp add: comp_def)
  finally show ?thesis .
qed

lemma daily_step_erase: "daily_step E daily (erase c) = daily_step E daily c"
  by (simp add: daily_step_def erase_def split: option.splits)

lemma foldl_daily_erase:
  "foldl (daily_step E) daily (map erase cs) = foldl (daily_step E) daily cs"
  by (induction cs arbitrary: daily) (simp_all add: daily_step_erase)

lemma summary_erase:
  assumes "map erase cs1 = map erase cs2"
  shows "without_statuses (summary E cs1) = without_statuses (summary E cs2)"
proof -
  have len: "length cs1 = length cs2" using assms by (metis length_map)
  have m: "map model cs1 = map model cs2"
    by (rule field_erase [OF assms]) (simp add: erase_def)
  have pc: "map project_context cs1 = map project_context cs2"
    by (rule field_erase [OF assms]) (simp add: erase_def)
  have tt: "map total_tokens cs1 = map total_tokens cs2"
    by (rule field_erase [OF assms]) (simp add: erase_def)
  have ms: "map (\<lambda>c. length (messages c)) cs1 = map (\<lambda>c. length (messages c)) cs2"
    by (rule field_erase [OF assms]) (simp add: erase_def)
  have d: "foldl (daily_step E) [] cs1 = foldl (daily_step E) [] cs2"
    using assms foldl_daily_erase [of E "[]" cs1] foldl_daily_erase [of E "[]" cs2] by simp
  show ?thesis
    by (simp add: without_statuses_def summary_def len m pc tt ms d)
qed

text \<open>
  C9. Running the aggregation a second time on the analyzer it has just filled gives the
  same analyzer, statistics included. The aggregation does not read the clock: with
  another clock it gives the same result on the same conversations. And a whole run,
  reconstruction and classification included, under two clocks gives statistics that are
  equal in every field but the count of statuses.
\<close>

theorem aggregation_is_deterministic:
  "analyze_usage_patterns E (analyze_usage_patterns E self) = analyze_usage_patterns E self
   \<and> analyze_usage_patterns (E\<lparr>now := clock\<rparr>) self = analyze_usage_patterns E self
   \<and> map_option without_statuses (usage_stats (analyzed (E\<lparr>now := clock\<rparr>) d))
       = map_option without_statuses (usage_stats (analyzed E d))"
proof (intro conjI)
  show "analyze_usage_patterns E (analyze_usage_patterns E self) = analyze_usage_patterns E self"
    by (simp add: analyze_usage_patterns_summary)
  show "analyze_usage_patterns (E\<lparr>now := clock\<rparr>) self = analyze_usage_patterns E self"
    by (simp add: analyze_usage_patterns_summary)
  let ?cs1 = "load_conversation_data (E\<lparr>now := clock\<rparr>) d []"
  let ?cs2 = "load_conversation_data E d []"
  have e: "map erase ?cs1 = map erase ?cs2" by (rule load_conversation_data_clock)
  then have "?cs1 = [] \<longleftrightarrow> ?cs2 = []" by (metis map_is_Nil_conv)
  with summary_erase [OF e, of E]
  show "map_option without_statuses (usage_stats (analyzed (E\<lparr>now := clock\<rparr>) d))
       = map_option without_statuses (usage_stats (analyzed E d))"
    by (simp add: analyzed_def analyze_usage_patterns_summary)
qed


theorem aggregation_is_deterministic_witness:
  "map_option without_statuses (usage_stats (analyzed (example_env (utc 2024 1 1 0 1 0)) two_line_dir))
     = map_option without_statuses (usage_stats (analyzed (example_env (utc 2024 1 1 2 0 0)) two_line_dir))
   \<and> map_option statuses (usage_stats (analyzed (example_env (utc 2024 1 1 0 1 0)) two_line_dir))
       = Some [(''active'', 1)]
   \<and> map_option statuses (usage_stats (analyzed (example_env (utc 2024 1 1 2 0 0)) two_line_dir))
       = Some [(''inactive'', 1)]"
proof -
  have e: "(example_env (utc 2024 1 1 2 0 0))\<lparr>now := \<lambda>_. utc 2024 1 1 0 1 0\<rparr>
             = example_env (utc 2024 1 1 0 1 0)"
    by (simp add: example_env_def)
  from aggregation_is_deterministic
    [of "example_env (utc 2024 1 1 2 0 0)" _ "\<lambda>_. utc 2024 1 1 0 1 0" two_line_dir]
  have same: "map_option without_statuses (usage_stats (analyzed (example_env (utc 2024 1 1 0 1 0)) two_line_dir))
     = map_option without_statuses (usage_stats (analyzed (example_env (utc 2024 1 1 2 0 0)) two_line_dir))"
    unfolding e by blast
  have early: "map_option statuses (usage_stats (analyzed (example_env (utc 2024 1 1 0 1 0)) two_line_dir))
       = Some [(''active'', 1)]"
    by code_simp
  have late: "map_option statuses (usage_stats (analyzed (example_env (utc 2024 1 1 2 0 0)) two_line_dir))
       = Some [(''inactive'', 1)]"
    by code_simp
  from same early late show ?thesis by blast
qed

section \<open>Entries without a session id\<close>



end
